theory Spec2Isabelle
  imports Main "HOL-Library.AList"
begin

section \<open>JavaScript values\<close>

text \<open>
  The story generator of \<^verbatim>\<open>.storybook/stories/automatedStories.js\<close> works on untyped
  JavaScript values. A value is a primitive, a date (its time value), an array, a plain object
  or a function; objects and functions carry their own properties as an association list in
  key enumeration order. Numbers are restricted to integers, and property keys that are
  array indices, which JavaScript enumerates before the others, get no special place.
\<close>

datatype jsval =
    JUndefined
  | JNull
  | JBool bool
  | JNum int
  | JStr string
  | JDate int
  | JArr "jsval list"
  | JObj "(string \<times> jsval) list"
  | JFun "(string \<times> jsval) list"

datatype exn = TypeError | SyntaxError | InvalidCharacterError

text \<open>JavaScript's ToBoolean.\<close>

fun truthy :: "jsval \<Rightarrow> bool" where
  "truthy JUndefined = False"
| "truthy JNull = False"
| "truthy (JBool b) = b"
| "truthy (JNum n) = (n \<noteq> 0)"
| "truthy (JStr s) = (s \<noteq> [])"
| "truthy (JDate _) = True"
| "truthy (JArr _) = True"
| "truthy (JObj _) = True"
| "truthy (JFun _) = True"

text \<open>
  Members every object inherits from \<^verbatim>\<open>Object.prototype\<close>: a lookup of one of these
  names on an object that has no own property of that name yields a (truthy) built-in.
\<close>

definition object_prototype_members :: "string list" where
  "object_prototype_members =
     [''constructor'', ''toString'', ''toLocaleString'', ''valueOf'', ''hasOwnProperty'',
      ''isPrototypeOf'', ''propertyIsEnumerable'', ''__proto__'', ''__defineGetter__'',
      ''__defineSetter__'', ''__lookupGetter__'', ''__lookupSetter__'']"

definition inherited :: "string \<Rightarrow> jsval" where
  "inherited k = (if k \<in> set object_prototype_members then JFun [] else JUndefined)"

text \<open>\<^verbatim>\<open>obj[k]\<close> on a plain object given by its own properties.\<close>

definition obj_get :: "(string \<times> jsval) list \<Rightarrow> string \<Rightarrow> jsval" where
  "obj_get ps k = (case map_of ps k of Some v \<Rightarrow> v | None \<Rightarrow> inherited k)"

text \<open>
  \<^verbatim>\<open>v.k\<close> for the names the generator reads from a value of unknown shape
  (\<^verbatim>\<open>prototype\<close>, \<^verbatim>\<open>is\<close>, \<^verbatim>\<open>encapsulation\<close>, \<^verbatim>\<open>name\<close>,
  \<^verbatim>\<open>default\<close>, \<^verbatim>\<open>states\<close>, \<^verbatim>\<open>args\<close>, \<^verbatim>\<open>argTypes\<close>,
  \<^verbatim>\<open>notes\<close>): none of them is a member of the prototype of a primitive, a date or an
  array, which therefore yield \<^verbatim>\<open>undefined\<close>; reading a property of
  \<^verbatim>\<open>undefined\<close> or \<^verbatim>\<open>null\<close> throws a TypeError.
\<close>

fun get_member :: "jsval \<Rightarrow> string \<Rightarrow> exn + jsval" where
  "get_member JUndefined k = Inl TypeError"
| "get_member JNull k = Inl TypeError"
| "get_member (JObj ps) k = Inr (obj_get ps k)"
| "get_member (JFun ps) k = Inr (obj_get ps k)"
| "get_member v k = Inr JUndefined"

section \<open>getComponentFromExports\<close>

text \<open>
  The callback of \<^verbatim>\<open>find\<close>: \<^verbatim>\<open>_export.prototype && _export.is && _export.encapsulation\<close>.
  The first property read throws when the export is \<^verbatim>\<open>undefined\<close> or \<^verbatim>\<open>null\<close>.
\<close>

definition quacks :: "jsval \<Rightarrow> exn + bool" where
  "quacks e =
     (case get_member e ''prototype'' of
        Inl x \<Rightarrow> Inl x
      | Inr p \<Rightarrow>
          if \<not> truthy p then Inr False
          else (case get_member e ''is'' of
                  Inl x \<Rightarrow> Inl x
                | Inr i \<Rightarrow>
                    if \<not> truthy i then Inr False
                    else (case get_member e ''encapsulation'' of
                            Inl x \<Rightarrow> Inl x
                          | Inr c \<Rightarrow> Inr (truthy c))))"

text \<open>
  \<^verbatim>\<open>Object.keys(_module).find(...)\<close>: the keys are visited in enumeration order, each
  export is read back through \<^verbatim>\<open>_module[exportKey]\<close>; the result is the first key whose
  export quacks, or nothing.
\<close>

fun find_key :: "(string \<times> jsval) list \<Rightarrow> string list \<Rightarrow> exn + string option" where
  "find_key m [] = Inr None"
| "find_key m (k # ks) =
     (case quacks (obj_get m k) of
        Inl x \<Rightarrow> Inl x
      | Inr True \<Rightarrow> Inr (Some k)
      | Inr False \<Rightarrow> find_key m ks)"

text \<open>
  \<^verbatim>\<open>return _module[key]\<close>: when \<^verbatim>\<open>find\<close> found nothing the key is
  \<^verbatim>\<open>undefined\<close>, which as a property key is the string \<^verbatim>\<open>"undefined"\<close>.
\<close>

definition getComponentFromExports :: "(string \<times> jsval) list \<Rightarrow> exn + jsval" where
  "getComponentFromExports m =
     (case find_key m (map fst m) of
        Inl x \<Rightarrow> Inl x
      | Inr (Some k) \<Rightarrow> Inr (obj_get m k)
      | Inr None \<Rightarrow> Inr (obj_get m ''undefined''))"

section \<open>Strings and regular expressions\<close>

text \<open>
  A \<^typ>\<open>char\<close> stands for one code unit below 256. The regular expressions of the source
  are translated one by one into the string functions below.
\<close>

definition lower_char :: "char \<Rightarrow> char" where
  "lower_char c =
     (let n = (of_char c :: nat) in if 65 \<le> n \<and> n \<le> 90 then char_of (n + 32) else c)"

text \<open>\<^verbatim>\<open>toLowerCase\<close>, on the letters A to Z.\<close>

definition toLowerCase :: "string \<Rightarrow> string" where
  "toLowerCase s = map lower_char s"

text \<open>\<^verbatim>\<open>\w\<close>: a letter, a digit or the underscore.\<close>

definition word_char :: "char \<Rightarrow> bool" where
  "word_char c =
     (let n = (of_char c :: nat)
      in (65 \<le> n \<and> n \<le> 90) \<or> (97 \<le> n \<and> n \<le> 122) \<or> (48 \<le> n \<and> n \<le> 57) \<or> n = 95)"

text \<open>\<^verbatim>\<open>(\w|-)\<close>\<close>

definition word_or_dash :: "char \<Rightarrow> bool" where
  "word_or_dash c = (word_char c \<or> c = CHR ''-'')"

text \<open>\<^verbatim>\<open>/^(?:number|boolean|object)$/i.test(s)\<close>\<close>

definition is_number_boolean_object :: "string \<Rightarrow> bool" where
  "is_number_boolean_object s = (toLowerCase s \<in> set [''number'', ''boolean'', ''object''])"

text \<open>\<^verbatim>\<open>/^(?:string)$/i.test(s)\<close>\<close>

definition is_string :: "string \<Rightarrow> bool" where
  "is_string s = (toLowerCase s = ''string'')"

text \<open>\<^verbatim>\<open>/^(?:string|number|boolean|object)$/i.test(s)\<close>\<close>

definition is_primitive_name :: "string \<Rightarrow> bool" where
  "is_primitive_name s =
     (toLowerCase s \<in> set [''string'', ''number'', ''boolean'', ''object''])"

text \<open>
  A match of \<^verbatim>\<open>'C+'\<close> at the start of the text, for a character class \<open>C\<close> that does
  not contain the quote: a quote, the longest non-empty run of class members, a quote.
\<close>

fun quoted_here :: "(char \<Rightarrow> bool) \<Rightarrow> string \<Rightarrow> bool" where
  "quoted_here C [] = False"
| "quoted_here C (c # cs) =
     (c = CHR 0x27 \<and> takeWhile C cs \<noteq> [] \<and>
      (case dropWhile C cs of [] \<Rightarrow> False | d # _ \<Rightarrow> d = CHR 0x27))"

text \<open>An unanchored regular expression matches when it matches at some position.\<close>

fun contains_quoted :: "(char \<Rightarrow> bool) \<Rightarrow> string \<Rightarrow> bool" where
  "contains_quoted C [] = False"
| "contains_quoted C (c # cs) = (quoted_here C (c # cs) \<or> contains_quoted C cs)"

text \<open>\<^verbatim>\<open>/('')/g.test(s)\<close>: two quotes in a row somewhere in the text.\<close>

fun contains_empty_quotes :: "string \<Rightarrow> bool" where
  "contains_empty_quotes (c # d # cs) =
     ((c = CHR 0x27 \<and> d = CHR 0x27) \<or> contains_empty_quotes (d # cs))"
| "contains_empty_quotes _ = False"

text \<open>\<^verbatim>\<open>s.replace(/'/gi, '')\<close>\<close>

definition strip_quotes :: "string \<Rightarrow> string" where
  "strip_quotes s = filter (\<lambda>c. c \<noteq> CHR 0x27) s"

text \<open>\<^verbatim>\<open>s.replace(/'|\|/gi, '')\<close>\<close>

definition strip_quotes_bars :: "string \<Rightarrow> string" where
  "strip_quotes_bars s = filter (\<lambda>c. c \<noteq> CHR 0x27 \<and> c \<noteq> CHR ''|'') s"

definition white_space :: "char \<Rightarrow> bool" where
  "white_space c = ((of_char c :: nat) \<in> set [9, 10, 11, 12, 13, 32, 160])"

definition trim :: "string \<Rightarrow> string" where
  "trim s = rev (dropWhile white_space (rev (dropWhile white_space s)))"

text \<open>\<^verbatim>\<open>s.indexOf(t) !== -1\<close>\<close>

fun includes_str :: "string \<Rightarrow> string \<Rightarrow> bool" where
  "includes_str t [] = (t = [])"
| "includes_str t (c # cs) = (take (length t) (c # cs) = t \<or> includes_str t cs)"

text \<open>
  \<^verbatim>\<open>s.split(sep)\<close> for a non-empty separator: the text is cut at every occurrence of the
  separator, found from left to right; \<open>acc\<close> is the piece being read, reversed.
\<close>

function split_from :: "string \<Rightarrow> string \<Rightarrow> string \<Rightarrow> string list" where
  "split_from sep acc s =
     (if s = [] then [rev acc]
      else if sep \<noteq> [] \<and> take (length sep) s = sep
        then rev acc # split_from sep [] (drop (length sep) s)
      else split_from sep (hd s # acc) (tl s))"
  by pat_completeness auto
termination
  by (relation "measure (\<lambda>(sep, acc, s). length s)") auto

definition js_split :: "string \<Rightarrow> string \<Rightarrow> string list" where
  "js_split s sep = split_from sep [] s"

section \<open>Objects: writing a property, spreading\<close>

text \<open>
  \<^verbatim>\<open>{ ...obj, [k]: v }\<close> on the own properties of \<open>obj\<close>: an existing key keeps its
  place and takes the new value, a new key goes to the end.
\<close>

fun obj_set :: "(string \<times> jsval) list \<Rightarrow> string \<Rightarrow> jsval \<Rightarrow> (string \<times> jsval) list" where
  "obj_set [] k v = [(k, v)]"
| "obj_set ((k', v') # ps) k v = (if k' = k then (k, v) # ps else (k', v') # obj_set ps k v)"

text \<open>The decimal numeral of an array index, as a property key.\<close>

function index_key :: "nat \<Rightarrow> string" where
  "index_key n =
     (if n < 10 then [char_of (48 + n)] else index_key (n div 10) @ [char_of (48 + n mod 10)])"
  by pat_completeness auto
termination
  by (relation "measure id") auto

text \<open>
  The own enumerable properties that \<^verbatim>\<open>{ ...v }\<close> copies: those of an object, the indexed
  elements of an array or of a string, the properties of a function other than its built-in
  \<^verbatim>\<open>prototype\<close>, \<^verbatim>\<open>name\<close> and \<^verbatim>\<open>length\<close>, and none for the other primitives.
\<close>

fun spread :: "jsval \<Rightarrow> (string \<times> jsval) list" where
  "spread (JObj ps) = ps"
| "spread (JFun ps) = filter (\<lambda>(k, v). k \<notin> set [''prototype'', ''name'', ''length'']) ps"
| "spread (JArr xs) = map (\<lambda>i. (index_key i, xs ! i)) [0 ..< length xs]"
| "spread (JStr s) = map (\<lambda>i. (index_key i, JStr [s ! i])) [0 ..< length s]"
| "spread _ = []"

text \<open>\<^verbatim>\<open>a || b\<close>\<close>

definition js_or :: "jsval \<Rightarrow> jsval \<Rightarrow> jsval" where
  "js_or a b = (if truthy a then a else b)"

section \<open>getControlForProp\<close>

text \<open>
  What the module takes from outside the repository: \<^verbatim>\<open>Case.camel\<close> and
  \<^verbatim>\<open>Case.kebab\<close> of the \<^verbatim>\<open>case\<close> package, the built-in \<^verbatim>\<open>JSON.parse\<close>
  (which returns a value or throws), the value of \<^verbatim>\<open>new Date()\<close>, the conversion of a
  value to a string (\<^verbatim>\<open>String(v)\<close>, also applied to computed property keys and to
  attribute values), the names the DOM accepts in \<^verbatim>\<open>document.createElement\<close> and
  \<^verbatim>\<open>setAttribute\<close> (any other name throws an InvalidCharacterError), and
  \<^verbatim>\<open>path.dirname\<close> and \<^verbatim>\<open>path.basename\<close>.
\<close>

record host =
  camel :: "string \<Rightarrow> string"
  kebab :: "string \<Rightarrow> string"
  json_parse :: "string \<Rightarrow> exn + jsval"
  now :: jsval
  to_string :: "jsval \<Rightarrow> string"
  valid_name :: "string \<Rightarrow> bool"
  path_dirname :: "string \<Rightarrow> string"
  path_basename :: "string \<Rightarrow> string"

text \<open>
  A property descriptor of \<^verbatim>\<open>Component.properties\<close>, as the Stencil compiler emits it:
  \<^verbatim>\<open>type\<close>, \<^verbatim>\<open>complexType.original\<close> and \<^verbatim>\<open>defaultValue\<close> (absent:
  \<^verbatim>\<open>undefined\<close>). \<^verbatim>\<open>getControlForProp\<close> is called on descriptors that have the
  \<^verbatim>\<open>attribute\<close> property; \<^verbatim>\<open>getPropsWithControlValues\<close> sees descriptors that may
  have an \<^verbatim>\<open>attr\<close> or an \<^verbatim>\<open>attribute\<close> own property, or neither.
\<close>

record prop_info =
  ptype :: string
  complexType_original :: string
  defaultValue :: jsval

record stencil_prop = prop_info +
  attribute :: string

record descriptor = prop_info +
  own_attr :: "string option"
  own_attribute :: "string option"

text \<open>\<^verbatim>\<open>{ args, argTypes }\<close>: the control options, and the shape of the controls built.\<close>

record controlOptions =
  args :: "(string \<times> jsval) list"
  argTypes :: "(string \<times> jsval) list"

text \<open>\<^verbatim>\<open>{ default: defaultVal, control: { ...control, defaultValue: defaultVal } }\<close>\<close>

record generated =
  gen_default :: jsval
  gen_control :: jsval

text \<open>The \<^verbatim>\<open>control\<close> the function starts with.\<close>

definition text_control :: jsval where
  "text_control =
     JObj [(''defaultValue'', JStr []), (''control'', JObj [(''type'', JStr ''text'')])]"

text \<open>
  The callback of \<^verbatim>\<open>arrOptions.map\<close>:
  \<^verbatim>\<open>o.match(/('(\w|-)+')/g) ? o.replace(/'|\|/gi, '').trim() : o\<close>
\<close>

definition select_option :: "string \<Rightarrow> string" where
  "select_option opt =
     (if contains_quoted word_or_dash opt then trim (strip_quotes_bars opt) else opt)"

text \<open>
  Lines 22 to 48: the \<^verbatim>\<open>if\<close> / \<^verbatim>\<open>else if\<close> chain that picks the control, and the
  value \<^verbatim>\<open>defaultVal\<close> has after it (the empty string, or the date in the last branch).
\<close>

definition choose_control :: "host \<Rightarrow> stencil_prop \<Rightarrow> jsval \<Rightarrow> jsval \<times> jsval" where
  "choose_control h p argTypesOptions =
     (if truthy argTypesOptions then (argTypesOptions, JStr [])
      else if is_number_boolean_object (ptype p)
        then (JObj [(''control'', JObj [(''type'', JStr (toLowerCase (ptype p)))])], JStr [])
      else if is_string (ptype p)
        then (if \<not> is_primitive_name (complexType_original p)
              then (JObj [(''control'',
                      JObj [(''type'', JStr ''select''),
                            (''options'',
                               JArr (map (\<lambda>opt. JStr (select_option opt))
                                      (js_split (complexType_original p) '' | '')))])],
                    JStr [])
              else (text_control, JStr []))
      else if includes_str ''date'' (attribute p)
        then (JObj [(''control'', JObj [(''type'', JStr ''date'')])], now h)
      else (text_control, JStr []))"

text \<open>The body of the \<^verbatim>\<open>try\<close> block, lines 54 to 59.\<close>

definition try_default :: "host \<Rightarrow> jsval \<Rightarrow> exn + jsval" where
  "try_default h d =
     (case d of
        JStr s \<Rightarrow>
          if contains_quoted word_char s \<or> contains_empty_quotes s
          then Inr (JStr (if contains_empty_quotes s then ''Example Label'' else strip_quotes s))
          else json_parse h s
      | _ \<Rightarrow> Inr d)"

text \<open>The \<^verbatim>\<open>try\<close> with its \<^verbatim>\<open>catch\<close>, lines 53 to 62.\<close>

definition default_of_prop :: "host \<Rightarrow> jsval \<Rightarrow> jsval" where
  "default_of_prop h d =
     (case try_default h d of
        Inr v \<Rightarrow> v
      | Inl e \<Rightarrow> (case d of JStr s \<Rightarrow> JStr s | _ \<Rightarrow> JUndefined))"

text \<open>
  Lines 18 to 20: the options are looked up under the camel-cased attribute name first and
  under the attribute name itself second.
\<close>

definition argsOption :: "host \<Rightarrow> stencil_prop \<Rightarrow> controlOptions \<Rightarrow> jsval" where
  "argsOption h p controlOpts =
     js_or (obj_get (args controlOpts) (camel h (attribute p)))
           (obj_get (args controlOpts) (attribute p))"

definition argTypesOptions :: "host \<Rightarrow> stencil_prop \<Rightarrow> controlOptions \<Rightarrow> jsval" where
  "argTypesOptions h p controlOpts =
     js_or (obj_get (argTypes controlOpts) (camel h (attribute p)))
           (obj_get (argTypes controlOpts) (attribute p))"

text \<open>
  The function itself. What it writes with \<^verbatim>\<open>console.log\<close> is not part of the model.
\<close>

definition getControlForProp :: "host \<Rightarrow> stencil_prop \<Rightarrow> controlOptions \<Rightarrow> generated" where
  "getControlForProp h p controlOpts =
     (let (control, defaultVal0) = choose_control h p (argTypesOptions h p controlOpts);
          defaultVal =
            (if truthy (argsOption h p controlOpts) then argsOption h p controlOpts
             else if truthy (defaultValue p) then default_of_prop h (defaultValue p)
             else defaultVal0)
      in \<lparr>gen_default = defaultVal,
          gen_control = JObj (obj_set (spread control) ''defaultValue'' defaultVal)\<rparr>)"

text \<open>\<^verbatim>\<open>c.control.type\<close> of a generated control \<open>c\<close> (undefined when there is none).\<close>

definition control_type :: "jsval \<Rightarrow> jsval" where
  "control_type c =
     (case c of
        JObj ps \<Rightarrow> (case obj_get ps ''control'' of JObj qs \<Rightarrow> obj_get qs ''type'' | _ \<Rightarrow> JUndefined)
      | _ \<Rightarrow> JUndefined)"

text \<open>\<^verbatim>\<open>c.control.options\<close> of a generated control \<open>c\<close>.\<close>

definition control_options :: "jsval \<Rightarrow> jsval" where
  "control_options c =
     (case c of
        JObj ps \<Rightarrow> (case obj_get ps ''control'' of JObj qs \<Rightarrow> obj_get qs ''options'' | _ \<Rightarrow> JUndefined)
      | _ \<Rightarrow> JUndefined)"

section \<open>getPropsWithControlValues\<close>

text \<open>\<^verbatim>\<open>if (property.hasOwnProperty('attr')) property.attribute = property.attr\<close>\<close>

definition normalize :: "descriptor \<Rightarrow> descriptor" where
  "normalize d = (case own_attr d of Some a \<Rightarrow> d\<lparr>own_attribute := Some a\<rparr> | None \<Rightarrow> d)"

definition as_prop :: "descriptor \<Rightarrow> string \<Rightarrow> stencil_prop" where
  "as_prop d a =
     \<lparr>ptype = ptype d, complexType_original = complexType_original d,
      defaultValue = defaultValue d, attribute = a\<rparr>"

text \<open>
  The \<^verbatim>\<open>forEach\<close> over \<^verbatim>\<open>Object.keys(Component.properties || {})\<close>, with
  \<^verbatim>\<open>controls\<close> as the state of the loop.
\<close>

fun props_loop ::
  "host \<Rightarrow> controlOptions \<Rightarrow> (string \<times> descriptor) list \<Rightarrow> controlOptions \<Rightarrow> controlOptions"
where
  "props_loop h controlOpts [] controls = controls"
| "props_loop h controlOpts ((key, d) # rest) controls =
     (let property = normalize d
      in case own_attribute property of
           Some a \<Rightarrow>
             (let control = getControlForProp h (as_prop property a) controlOpts
              in props_loop h controlOpts rest
                   \<lparr>args = obj_set (args controls) key (gen_default control),
                    argTypes = obj_set (argTypes controls) key (gen_control control)\<rparr>)
         | None \<Rightarrow> props_loop h controlOpts rest controls)"

text \<open>
  The component class, as far as the generator reads it: \<^verbatim>\<open>Component.name\<close>,
  \<^verbatim>\<open>Component.is\<close> and \<^verbatim>\<open>Component.properties\<close> (which may be absent).
\<close>

record component =
  comp_name :: string
  comp_is :: string
  properties :: "(string \<times> descriptor) list option"

definition getPropsWithControlValues :: "host \<Rightarrow> component \<Rightarrow> controlOptions \<Rightarrow> controlOptions" where
  "getPropsWithControlValues h Component controlOpts =
     props_loop h controlOpts (case properties Component of None \<Rightarrow> [] | Some ps \<Rightarrow> ps)
       \<lparr>args = [], argTypes = []\<rparr>"

text \<open>The descriptors of \<^verbatim>\<open>Component.properties\<close> after the call, which normalizes them in place.\<close>

definition properties_after :: "component \<Rightarrow> (string \<times> descriptor) list option" where
  "properties_after Component =
     map_option (map (\<lambda>(key, d). (key, normalize d))) (properties Component)"

section \<open>The DOM built by a story\<close>

text \<open>
  An entry of a state's \<^verbatim>\<open>children\<close> array: \<^verbatim>\<open>{ tag, innerText, props, children }\<close>.
  An absent \<^verbatim>\<open>children\<close> is the empty list: \<^verbatim>\<open>createNodes\<close> does nothing in
  both cases.
\<close>

datatype node =
  Node (node_tag: string) (node_innerText: jsval)
       (node_props: "(string \<times> jsval) list option") (node_children: "node list")

text \<open>
  An element: its tag, its attributes, the markup assigned to \<^verbatim>\<open>innerHTML\<close> (kept as the
  assigned value, not parsed) and the elements appended after it.
\<close>

datatype element =
  Element (el_tag: string) (el_attributes: "(string \<times> string) list")
          (el_innerHTML: "jsval option") (el_children: "element list")

text \<open>
  The loop \<^verbatim>\<open>Object.keys(props).forEach(prop => ...)\<close> of \<^verbatim>\<open>createNodes\<close> and of the
  render function: a truthy value is set as attribute, any other value removes the attribute.
  \<open>f\<close> is the renaming of the key (\<^verbatim>\<open>Case.kebab\<close> in the render function, none in
  \<^verbatim>\<open>createNodes\<close>). An HTML element stores the name in lower case.
\<close>

fun set_attributes ::
  "host \<Rightarrow> (string \<Rightarrow> string) \<Rightarrow> (string \<times> jsval) list \<Rightarrow> (string \<times> string) list
     \<Rightarrow> exn + (string \<times> string) list"
where
  "set_attributes h f [] attrs = Inr attrs"
| "set_attributes h f ((prop, v) # ps) attrs =
     (if truthy v
      then (if valid_name h (f prop)
            then set_attributes h f ps
                   (AList.update (toLowerCase (f prop)) (to_string h v) attrs)
            else Inl InvalidCharacterError)
      else set_attributes h f ps (AList.delete (toLowerCase (f prop)) attrs))"

definition apply_props ::
  "host \<Rightarrow> (string \<Rightarrow> string) \<Rightarrow> (string \<times> jsval) list option \<Rightarrow> exn + (string \<times> string) list"
where
  "apply_props h f props =
     (case props of None \<Rightarrow> Inr [] | Some ps \<Rightarrow> set_attributes h f ps [])"

text \<open>
  \<^verbatim>\<open>createNodes(el, elements)\<close>: the elements it appends to \<^verbatim>\<open>el\<close>, in order; the
  first exception ends the whole call.
\<close>

fun createNode :: "host \<Rightarrow> node \<Rightarrow> exn + element"
  and createNodes :: "host \<Rightarrow> node list \<Rightarrow> exn + element list"
where
  "createNode h (Node tag innerText props children) =
     (if \<not> valid_name h tag then Inl InvalidCharacterError
      else case apply_props h (\<lambda>prop. prop) props of
             Inl e \<Rightarrow> Inl e
           | Inr attrs \<Rightarrow>
               (case createNodes h children of
                  Inl e \<Rightarrow> Inl e
                | Inr kids \<Rightarrow> Inr (Element tag attrs (Some innerText) kids)))"
| "createNodes h [] = Inr []"
| "createNodes h (n # ns) =
     (case createNode h n of
        Inl e \<Rightarrow> Inl e
      | Inr el \<Rightarrow>
          (case createNodes h ns of
             Inl e \<Rightarrow> Inl e
           | Inr els \<Rightarrow> Inr (el # els)))"

section \<open>createStencilStory\<close>

text \<open>
  A state object: \<^verbatim>\<open>{ title, description, props, children }\<close>, to which the default state
  adds \<^verbatim>\<open>tag\<close> and the render function adds \<^verbatim>\<open>argTypes\<close>.
\<close>

record state_obj =
  st_title :: jsval
  st_description :: jsval
  st_tag :: "string option"
  st_props :: "(string \<times> jsval) list option"
  st_children :: "node list"
  st_argTypes :: "(string \<times> jsval) list option"

text \<open>
  Arrays of states and state objects are mutable and shared by reference, so they live in a
  store: an array is a list of references to state objects. \<open>next_array\<close> and
  \<open>next_object\<close> are the first references not yet in use.
\<close>

record store =
  arrays :: "nat \<Rightarrow> nat list"
  next_array :: nat
  objects :: "nat \<Rightarrow> state_obj"
  next_object :: nat

text \<open>
  The argument \<^verbatim>\<open>{ Component, notes, states, args = {}, argTypes = {} }\<close>: \<^verbatim>\<open>states\<close>
  is a reference to the caller's array, or undefined; an undefined \<^verbatim>\<open>args\<close> or
  \<^verbatim>\<open>argTypes\<close> takes the default \<^verbatim>\<open>{}\<close>.
\<close>

record config =
  cfg_Component :: component
  cfg_notes :: jsval
  cfg_states :: "nat option"
  cfg_args :: "(string \<times> jsval) list option"
  cfg_argTypes :: "(string \<times> jsval) list option"

text \<open>
  What \<^verbatim>\<open>stories.add\<close> receives: the name, the story options and the render function,
  given by the variables it closes over: the reference to the cloned array of states, the
  tag and the controls.
\<close>

record story =
  story_name :: string
  story_opts :: "(string \<times> jsval) list"
  story_states :: nat
  story_tag :: string
  story_controls :: controlOptions

definition default_state :: "string \<Rightarrow> state_obj" where
  "default_state tag =
     \<lparr>st_title = JStr ''Default state (use Controls below to edit props):'',
      st_description = JUndefined,
      st_tag = Some tag,
      st_props = Some [],
      st_children = [Node ''span'' (JStr ''Default'') None []],
      st_argTypes = None\<rparr>"

definition or_empty :: "(string \<times> jsval) list option \<Rightarrow> (string \<times> jsval) list" where
  "or_empty ps = (case ps of None \<Rightarrow> [] | Some qs \<Rightarrow> qs)"

text \<open>
  \<^verbatim>\<open>states && states.length ? states.slice(0) : []\<close> allocates a new array,
  the object literal allocates the default state, \<^verbatim>\<open>unshift\<close> writes the new array only.
\<close>

definition createStencilStory :: "host \<Rightarrow> config \<Rightarrow> store \<Rightarrow> story \<times> store" where
  "createStencilStory h c s =
     (let Component = cfg_Component c;
          controls = getPropsWithControlValues h Component
                       \<lparr>args = or_empty (cfg_args c), argTypes = or_empty (cfg_argTypes c)\<rparr>;
          storyOpts =
            (if truthy (cfg_notes c)
             then [(''notes'', cfg_notes c), (''args'', JObj (args controls)),
                   (''argTypes'', JObj (argTypes controls))]
             else [(''args'', JObj (args controls)), (''argTypes'', JObj (argTypes controls))]);
          tag = comp_is Component;
          cloned = (case cfg_states c of None \<Rightarrow> [] | Some a \<Rightarrow> arrays s a);
          states = next_array s;
          s1 = s\<lparr>arrays := (arrays s)(states := cloned), next_array := Suc (next_array s)\<rparr>;
          dflt = next_object s1;
          s2 = s1\<lparr>objects := (objects s1)(dflt := default_state tag),
                  next_object := Suc (next_object s1)\<rparr>;
          s3 = s2\<lparr>arrays := (arrays s2)(states := dflt # arrays s2 states)\<rparr>
      in (\<lparr>story_name = comp_name Component, story_opts = storyOpts, story_states = states,
           story_tag = tag, story_controls = controls\<rparr>, s3))"

text \<open>
  \<^verbatim>\<open>getStencilTemplate\<close> with the component appended to its placeholder: the title as
  interpolated into the heading, the description when it is truthy, the component element.
\<close>

record container =
  c_title :: string
  c_description :: "string option"
  c_component :: element

text \<open>The callback of \<^verbatim>\<open>states.forEach\<close> in the render function: one container.\<close>

definition render_state :: "host \<Rightarrow> string \<Rightarrow> state_obj \<Rightarrow> exn + container" where
  "render_state h tag st =
     (if \<not> valid_name h tag then Inl InvalidCharacterError
      else case apply_props h (kebab h) (st_props st) of
             Inl e \<Rightarrow> Inl e
           | Inr attrs \<Rightarrow>
               (case createNodes h (st_children st) of
                  Inl e \<Rightarrow> Inl e
                | Inr kids \<Rightarrow>
                    Inr \<lparr>c_title = to_string h (st_title st),
                         c_description =
                           (if truthy (st_description st)
                            then Some (to_string h (st_description st)) else None),
                         c_component = Element tag attrs None kids\<rparr>))"

text \<open>\<^verbatim>\<open>states.forEach\<close>: the containers appended to the main element, in order.\<close>

fun render_states :: "host \<Rightarrow> string \<Rightarrow> state_obj list \<Rightarrow> exn + container list" where
  "render_states h tag [] = Inr []"
| "render_states h tag (st # sts) =
     (case render_state h tag st of
        Inl e \<Rightarrow> Inl e
      | Inr c \<Rightarrow>
          (case render_states h tag sts of
             Inl e \<Rightarrow> Inl e
           | Inr cs \<Rightarrow> Inr (c # cs)))"

text \<open>
  The render function \<^verbatim>\<open>args => { ... }\<close>: it empties the main element, writes
  \<^verbatim>\<open>props\<close> and \<^verbatim>\<open>argTypes\<close> of \<^verbatim>\<open>states[0]\<close>, and renders every state of the
  cloned array. The result is the content of the main element, and the store.
\<close>

definition render :: "host \<Rightarrow> story \<Rightarrow> (string \<times> jsval) list \<Rightarrow> store \<Rightarrow> (exn + container list) \<times> store" where
  "render h sty ctl_args s =
     (case arrays s (story_states sty) of
        [] \<Rightarrow> (Inl TypeError, s)
      | first # _ \<Rightarrow>
          (let s1 = s\<lparr>objects := (objects s)
                         (first := (objects s first)
                            \<lparr>st_props := Some ctl_args,
                             st_argTypes := Some (argTypes (story_controls sty))\<rparr>)\<rparr>
           in (render_states h (story_tag sty) (map (objects s1) (arrays s1 (story_states sty))),
               s1)))"

text \<open>The render function called once for each entry of a list of control values.\<close>

fun renders :: "host \<Rightarrow> story \<Rightarrow> (string \<times> jsval) list list \<Rightarrow> store \<Rightarrow> store" where
  "renders h sty [] s = s"
| "renders h sty (a # as) s = renders h sty as (snd (render h sty a s))"

section \<open>buildGeneratorConfigs\<close>

text \<open>
  A webpack context (\<^verbatim>\<open>require.context\<close>): \<^verbatim>\<open>ctx.keys()\<close> and the module
  \<^verbatim>\<open>ctx(route)\<close>, an object of exports.
\<close>

record require_context =
  ctx_keys :: "string list"
  ctx_require :: "string \<Rightarrow> (string \<times> jsval) list"

text \<open>\<^verbatim>\<open>notes.replace(/\\\|/g, '` `')\<close>: every backslash followed by a bar becomes \<^verbatim>\<open>` `\<close>.\<close>

fun replace_escaped_bars :: "string \<Rightarrow> string" where
  "replace_escaped_bars (c # d # cs) =
     (if c = CHR 0x5C \<and> d = CHR ''|''
      then [CHR 0x60, CHR '' '', CHR 0x60] @ replace_escaped_bars cs
      else c # replace_escaped_bars (d # cs))"
| "replace_escaped_bars cs = cs"

text \<open>
  \<^verbatim>\<open>cleanNotes\<close>: nothing for falsy notes; truthy notes that are not a string have no
  \<^verbatim>\<open>replace\<close> method to call (an object that brings its own is not modelled).
\<close>

fun cleanNotes :: "jsval \<Rightarrow> exn + jsval" where
  "cleanNotes (JStr s) = Inr (if s = [] then JUndefined else JStr (replace_escaped_bars s))"
| "cleanNotes v = (if truthy v then Inl TypeError else Inr JUndefined)"

text \<open>\<^verbatim>\<open>console.warn(`Couldn't load component ${compRoute}`)\<close>\<close>

definition warning :: "string \<Rightarrow> string" where
  "warning compRoute = ''Couldn'' @ [CHR 0x27] @ ''t load component '' @ compRoute"

text \<open>The object literal of lines 310 to 316; each property read of \<^verbatim>\<open>_export\<close> may throw.\<close>

definition story_config :: "jsval \<Rightarrow> jsval \<Rightarrow> exn + jsval" where
  "story_config Component ex =
     (case get_member ex ''states'' of
        Inl e \<Rightarrow> Inl e
      | Inr sts \<Rightarrow>
          (case get_member ex ''args'' of
             Inl e \<Rightarrow> Inl e
           | Inr ar \<Rightarrow>
               (case get_member ex ''argTypes'' of
                  Inl e \<Rightarrow> Inl e
                | Inr ats \<Rightarrow>
                    (case get_member ex ''notes'' of
                       Inl e \<Rightarrow> Inl e
                     | Inr nts \<Rightarrow>
                         (case cleanNotes nts of
                            Inl e \<Rightarrow> Inl e
                          | Inr cleaned \<Rightarrow>
                              Inr (JObj [(''Component'', Component), (''states'', sts),
                                         (''args'', ar), (''argTypes'', ats),
                                         (''notes'', cleaned)]))))))"

definition is_function :: "jsval \<Rightarrow> bool" where
  "is_function v = (case v of JFun _ \<Rightarrow> True | _ \<Rightarrow> False)"

text \<open>
  The object \<^verbatim>\<open>{ [Component.name]: ... }\<close> that \<^verbatim>\<open>Object.assign\<close> copies into the
  accumulator, as its key and value: the default export of the story module when that is a
  function, the configuration built from it otherwise, and \<^verbatim>\<open>{ Component }\<close> when no
  story route was found. \<^verbatim>\<open>if (storyRoute)\<close> tests the route found for truthiness.
\<close>

definition config_entry ::
  "host \<Rightarrow> require_context \<Rightarrow> jsval \<Rightarrow> string option \<Rightarrow> exn + string \<times> jsval"
where
  "config_entry h storiesCtx Component storyRoute =
     (case get_member Component ''name'' of
        Inl e \<Rightarrow> Inl e
      | Inr name \<Rightarrow>
          (case storyRoute of
             None \<Rightarrow> Inr (to_string h name, JObj [(''Component'', Component)])
           | Some r \<Rightarrow>
               if r = [] then Inr (to_string h name, JObj [(''Component'', Component)])
               else if is_function (obj_get (ctx_require storiesCtx r) ''default'')
                 then Inr (to_string h name, obj_get (ctx_require storiesCtx r) ''default'')
               else (case story_config Component (obj_get (ctx_require storiesCtx r) ''default'') of
                       Inl e \<Rightarrow> Inl e
                     | Inr cfg \<Rightarrow> Inr (to_string h name, cfg))))"

text \<open>
  The callback of \<^verbatim>\<open>componentRoutes.reduce\<close>: the accumulator \<open>obj\<close> and the route
  give the next accumulator or an exception; the lines written with \<^verbatim>\<open>console.warn\<close> are
  added to \<open>console\<close>.
\<close>

definition config_step ::
  "host \<Rightarrow> require_context \<Rightarrow> require_context \<Rightarrow> (string \<times> jsval) list \<Rightarrow> string list \<Rightarrow> string
     \<Rightarrow> (exn + (string \<times> jsval) list) \<times> string list"
where
  "config_step h componentsCtx storiesCtx obj console compRoute =
     (case getComponentFromExports (ctx_require componentsCtx compRoute) of
        Inl e \<Rightarrow> (Inl e, console)
      | Inr Component \<Rightarrow>
          (let dirName = ''/'' @ path_basename h (path_dirname h compRoute) @ ''/'';
               storyRoute = find (\<lambda>k. includes_str dirName k) (ctx_keys storiesCtx)
           in if \<not> truthy Component then (Inr obj, console @ [warning compRoute])
              else (case config_entry h storiesCtx Component storyRoute of
                      Inl e \<Rightarrow> (Inl e, console)
                    | Inr (key, cfg) \<Rightarrow> (Inr (obj_set obj key cfg), console))))"

text \<open>\<^verbatim>\<open>reduce\<close>: the routes in order; an exception of the callback ends it.\<close>

fun reduce_routes ::
  "host \<Rightarrow> require_context \<Rightarrow> require_context \<Rightarrow> string list \<Rightarrow> (string \<times> jsval) list \<Rightarrow> string list
     \<Rightarrow> (exn + (string \<times> jsval) list) \<times> string list"
where
  "reduce_routes h componentsCtx storiesCtx [] obj console = (Inr obj, console)"
| "reduce_routes h componentsCtx storiesCtx (compRoute # routes) obj console =
     (case config_step h componentsCtx storiesCtx obj console compRoute of
        (Inl e, console') \<Rightarrow> (Inl e, console')
      | (Inr obj', console') \<Rightarrow> reduce_routes h componentsCtx storiesCtx routes obj' console')"

definition buildGeneratorConfigs ::
  "host \<Rightarrow> require_context \<Rightarrow> require_context \<Rightarrow> (exn + (string \<times> jsval) list) \<times> string list"
where
  "buildGeneratorConfigs h componentsCtx storiesCtx =
     reduce_routes h componentsCtx storiesCtx (ctx_keys componentsCtx) [] []"

section \<open>A host for the examples\<close>

text \<open>
  The examples below run on lower-case, dash-separated attribute names and on the JSON texts
  \<^verbatim>\<open>true\<close>, \<^verbatim>\<open>false\<close> and \<^verbatim>\<open>null\<close>; every other text used in an example
  is not JSON. On these inputs the following functions do what the library functions do.
\<close>

text \<open>A text between single quotes, as a string literal appears in compiled metadata.\<close>

definition quoted :: "string \<Rightarrow> string" where
  "quoted w = CHR 0x27 # w @ [CHR 0x27]"

definition upper_char :: "char \<Rightarrow> char" where
  "upper_char c =
     (let n = (of_char c :: nat) in if 97 \<le> n \<and> n \<le> 122 then char_of (n - 32) else c)"

fun dashes_to_camel :: "string \<Rightarrow> string" where
  "dashes_to_camel (c # d # cs) =
     (if c = CHR ''-'' then upper_char d # dashes_to_camel cs else c # dashes_to_camel (d # cs))"
| "dashes_to_camel cs = cs"

fun camel_to_dashes :: "string \<Rightarrow> string" where
  "camel_to_dashes [] = []"
| "camel_to_dashes (c # cs) =
     (if lower_char c \<noteq> c then CHR ''-'' # lower_char c # camel_to_dashes cs
      else c # camel_to_dashes cs)"

definition parse_literal :: "string \<Rightarrow> exn + jsval" where
  "parse_literal s =
     (if s = ''true'' then Inr (JBool True)
      else if s = ''false'' then Inr (JBool False)
      else if s = ''null'' then Inr JNull
      else Inl SyntaxError)"

fun show_value :: "jsval \<Rightarrow> string" where
  "show_value (JStr s) = s"
| "show_value JUndefined = ''undefined''"
| "show_value JNull = ''null''"
| "show_value (JBool b) = (if b then ''true'' else ''false'')"
| "show_value _ = ''[object Object]''"

definition name_char :: "char \<Rightarrow> bool" where
  "name_char c = (word_char c \<or> c = CHR ''-'')"

fun last_segment :: "string \<Rightarrow> string \<Rightarrow> string" where
  "last_segment acc [] = rev acc"
| "last_segment acc (c # cs) = (if c = CHR ''/'' then last_segment [] cs else last_segment (c # acc) cs)"

definition parent_path :: "string \<Rightarrow> string" where
  "parent_path p = rev (drop 1 (dropWhile (\<lambda>c. c \<noteq> CHR ''/'') (rev p)))"

definition example_host :: host where
  "example_host =
     \<lparr>camel = dashes_to_camel, kebab = camel_to_dashes, json_parse = parse_literal,
      now = JDate 0, to_string = show_value,
      valid_name = (\<lambda>n. n \<noteq> [] \<and> list_all name_char n),
      path_dirname = parent_path, path_basename = last_segment []\<rparr>"

text \<open>A store with one array of one state, and a configuration that refers to it.\<close>

definition example_state :: state_obj where
  "example_state =
     \<lparr>st_title = JStr ''Disabled'', st_description = JStr ''It cannot be pressed'',
      st_tag = None, st_props = Some [(''disabled'', JBool True)],
      st_children = [Node ''span'' (JStr ''Off'') None []], st_argTypes = None\<rparr>"

definition example_store :: store where
  "example_store =
     \<lparr>arrays = (\<lambda>a. [])(0 := [0]), next_array = 1,
      objects = (\<lambda>r. example_state), next_object = 1\<rparr>"

definition example_config :: config where
  "example_config =
     \<lparr>cfg_Component =
        \<lparr>comp_name = ''MyButton'', comp_is = ''my-button'',
         properties = Some
           [(''color'',
             \<lparr>ptype = ''string'',
              complexType_original = quoted ''primary'' @ '' | '' @ quoted ''secondary'',
              defaultValue = JStr (quoted ''primary''),
              own_attr = None, own_attribute = Some ''color''\<rparr>)]\<rparr>,
      cfg_notes = JUndefined, cfg_states = Some 0, cfg_args = None, cfg_argTypes = None\<rparr>"

section \<open>Properties of getComponentFromExports\<close>

lemma quacks_cases:
  "quacks e =
     (if e = JUndefined \<or> e = JNull then Inl TypeError
      else Inr (case e of
                  JObj ps \<Rightarrow> truthy (obj_get ps ''prototype'') \<and> truthy (obj_get ps ''is'')
                               \<and> truthy (obj_get ps ''encapsulation'')
                | JFun ps \<Rightarrow> truthy (obj_get ps ''prototype'') \<and> truthy (obj_get ps ''is'')
                               \<and> truthy (obj_get ps ''encapsulation'')
                | _ \<Rightarrow> False))"
  by (cases e) (auto simp: quacks_def)

lemma obj_get_distinct: "distinct (map fst m) \<Longrightarrow> (k, e) \<in> set m \<Longrightarrow> obj_get m k = e"
  by (simp add: obj_get_def)

lemma obj_get_absent: "k \<notin> fst ` set m \<Longrightarrow> obj_get m k = inherited k"
  by (force simp: obj_get_def split: option.splits dest: map_of_SomeD)

lemma find_key_none:
  "\<forall>k\<in>set ks. quacks (obj_get m k) = Inr False \<Longrightarrow> find_key m ks = Inr None"
  by (induction ks) auto

lemma find_key_first:
  "\<forall>k'\<in>set pre. quacks (obj_get m k') = Inr False \<Longrightarrow> quacks (obj_get m k) = Inr True
   \<Longrightarrow> find_key m (pre @ k # post) = Inr (Some k)"
  by (induction pre) auto

lemma find_key_throws:
  "\<forall>k'\<in>set pre. quacks (obj_get m k') = Inr False \<Longrightarrow> quacks (obj_get m k) = Inl x
   \<Longrightarrow> find_key m (pre @ k # post) = Inl x"
  by (induction pre) auto

lemma keys_all_false:
  assumes "distinct (map fst m)" and "set pre \<subseteq> set m"
    and "\<forall>(k', e') \<in> set pre. quacks e' = Inr False"
  shows "\<forall>k'\<in>set (map fst pre). quacks (obj_get m k') = Inr False"
proof
  fix k' assume "k' \<in> set (map fst pre)"
  then obtain e' where in_pre: "(k', e') \<in> set pre" by auto
  with assms(1,2) have "obj_get m k' = e'" by (intro obj_get_distinct) auto
  with in_pre assms(3) show "quacks (obj_get m k') = Inr False" by auto
qed

lemma first_quacking_found:
  assumes "distinct (map fst m)" and "m = pre @ (k, e) # post"
    and "\<forall>(k', e') \<in> set pre. quacks e' = Inr False" and "quacks e = Inr True"
  shows "getComponentFromExports m = Inr e"
proof -
  have ke: "obj_get m k = e" using assms(1,2) by (intro obj_get_distinct) auto
  have "\<forall>k'\<in>set (map fst pre). quacks (obj_get m k') = Inr False"
    using assms(1,2,3) by (intro keys_all_false) auto
  then have "find_key m (map fst pre @ k # map fst post) = Inr (Some k)"
    using assms(4) ke by (intro find_key_first) auto
  then show ?thesis using assms(2) ke by (simp add: getComponentFromExports_def)
qed

lemma none_quacking:
  assumes "distinct (map fst m)" and "\<forall>(k', e') \<in> set m. quacks e' = Inr False"
  shows "getComponentFromExports m = Inr (obj_get m ''undefined'')"
proof -
  have "\<forall>k'\<in>set (map fst m). quacks (obj_get m k') = Inr False"
    using assms by (intro keys_all_false) auto
  then have "find_key m (map fst m) = Inr None" by (rule find_key_none)
  then show ?thesis by (simp add: getComponentFromExports_def)
qed

lemma nullish_export_throws:
  assumes "distinct (map fst m)" and "m = pre @ (k, e) # post"
    and "\<forall>(k', e') \<in> set pre. quacks e' = Inr False" and "e = JUndefined \<or> e = JNull"
  shows "getComponentFromExports m = Inl TypeError"
proof -
  have ke: "obj_get m k = e" using assms(1,2) by (intro obj_get_distinct) auto
  have q: "quacks e = Inl TypeError" using assms(4) by (auto simp: quacks_def)
  have "\<forall>k'\<in>set (map fst pre). quacks (obj_get m k') = Inr False"
    using assms(1,2,3) by (intro keys_all_false) auto
  then have "find_key m (map fst pre @ k # map fst post) = Inl TypeError"
    using q ke by (intro find_key_throws) auto
  then show ?thesis using assms(2) by (simp add: getComponentFromExports_def)
qed

text \<open>
  Claim C7, as amended. The check of an export (\<open>quacks\<close>) reads its \<^verbatim>\<open>prototype\<close>,
  \<^verbatim>\<open>is\<close> and \<^verbatim>\<open>encapsulation\<close> for truthiness; it has a result on every export that
  is not \<^verbatim>\<open>undefined\<close> or \<^verbatim>\<open>null\<close> (\<open>quacks_cases\<close>). In a module with distinct
  keys: when the check is false on the exports before \<open>e\<close> in enumeration order and true
  on \<open>e\<close>, \<open>getComponentFromExports\<close> returns \<open>e\<close>; when the check is false on every
  export and no export is named \<^verbatim>\<open>undefined\<close>, it returns \<^verbatim>\<open>undefined\<close>.
\<close>

theorem getComponentFromExports_first_truthy:
  "(distinct (map fst m) \<and> m = pre @ (k, e) # post
      \<and> (\<forall>(k', e') \<in> set pre. quacks e' = Inr False) \<and> quacks e = Inr True
     \<longrightarrow> getComponentFromExports m = Inr e)
   \<and> (distinct (map fst n) \<and> (\<forall>(k', e') \<in> set n. quacks e' = Inr False)
        \<and> ''undefined'' \<notin> fst ` set n
     \<longrightarrow> getComponentFromExports n = Inr JUndefined)"
proof (intro conjI impI)
  assume "distinct (map fst m) \<and> m = pre @ (k, e) # post
      \<and> (\<forall>(k', e') \<in> set pre. quacks e' = Inr False) \<and> quacks e = Inr True"
  then show "getComponentFromExports m = Inr e"
    using first_quacking_found [of m pre k e post] by blast
next
  assume a: "distinct (map fst n) \<and> (\<forall>(k', e') \<in> set n. quacks e' = Inr False)
      \<and> ''undefined'' \<notin> fst ` set n"
  then have "getComponentFromExports n = Inr (obj_get n ''undefined'')"
    using none_quacking [of n] by blast
  moreover have "obj_get n ''undefined'' = JUndefined"
    using a by (simp add: obj_get_absent inherited_def object_prototype_members_def)
  ultimately show "getComponentFromExports n = Inr JUndefined" by simp
qed

theorem getComponentFromExports_first_truthy_witness:
  "getComponentFromExports
     [(''VERSION'', JStr ''1.0''),
      (''MyButton'', JFun [(''prototype'', JObj []), (''is'', JStr ''my-button''),
                           (''encapsulation'', JStr ''shadow'')]),
      (''Other'', JFun [(''prototype'', JObj []), (''is'', JStr ''other''),
                        (''encapsulation'', JStr ''shadow'')])]
     = Inr (JFun [(''prototype'', JObj []), (''is'', JStr ''my-button''),
                  (''encapsulation'', JStr ''shadow'')])
   \<and> getComponentFromExports [(''VERSION'', JStr ''1.0''), (''helper'', JFun [(''prototype'', JObj [])])]
     = Inr JUndefined"
  using getComponentFromExports_first_truthy
    [of "[(''VERSION'', JStr ''1.0''),
          (''MyButton'', JFun [(''prototype'', JObj []), (''is'', JStr ''my-button''),
                               (''encapsulation'', JStr ''shadow'')]),
          (''Other'', JFun [(''prototype'', JObj []), (''is'', JStr ''other''),
                            (''encapsulation'', JStr ''shadow'')])]"
        "[(''VERSION'', JStr ''1.0'')]" "''MyButton''"
        "JFun [(''prototype'', JObj []), (''is'', JStr ''my-button''),
               (''encapsulation'', JStr ''shadow'')]"
        "[(''Other'', JFun [(''prototype'', JObj []), (''is'', JStr ''other''),
                            (''encapsulation'', JStr ''shadow'')])]"
        "[(''VERSION'', JStr ''1.0''), (''helper'', JFun [(''prototype'', JObj [])])]"]
  by (simp add: quacks_def obj_get_def inherited_def object_prototype_members_def)

text \<open>
  Claim C7 as stated fails on an export that has all three properties, one of them falsy
  (here \<^verbatim>\<open>is: ''\<close>): it is not returned.
\<close>

theorem getComponentFromExports_counterexample:
  "getComponentFromExports
     [(''Shell'', JFun [(''prototype'', JObj []), (''is'', JStr []),
                        (''encapsulation'', JStr ''shadow'')])] = Inr JUndefined"
  by (simp add: getComponentFromExports_def quacks_def obj_get_def inherited_def
        object_prototype_members_def)

section \<open>Properties of buildGeneratorConfigs\<close>

lemma all_missing_components:
  "\<forall>r\<in>set routes. getComponentFromExports (ctx_require componentsCtx r) = Inr JUndefined
   \<Longrightarrow> reduce_routes h componentsCtx storiesCtx routes obj console
       = (Inr obj, console @ map warning routes)"
  by (induction routes arbitrary: console) (auto simp: config_step_def Let_def)

text \<open>
  When \<open>getComponentFromExports\<close> returns \<^verbatim>\<open>undefined\<close> for the module of a route, the
  callback of the reduction in \<open>buildGeneratorConfigs\<close> throws nothing, adds the warning
  for that route to the console and returns the accumulator as it was, so the reduction goes
  on to the next route with the same accumulator.
\<close>

lemma missing_component_warns:
  "getComponentFromExports (ctx_require componentsCtx compRoute) = Inr JUndefined \<Longrightarrow>
     config_step h componentsCtx storiesCtx obj console compRoute
       = (Inr obj, console @ [warning compRoute])
     \<and> reduce_routes h componentsCtx storiesCtx (compRoute # routes) obj console
       = reduce_routes h componentsCtx storiesCtx routes obj (console @ [warning compRoute])
     \<and> (ctx_keys componentsCtx = compRoute # routes \<longrightarrow>
          buildGeneratorConfigs h componentsCtx storiesCtx
            = reduce_routes h componentsCtx storiesCtx routes [] [warning compRoute])"
  by (simp add: config_step_def Let_def buildGeneratorConfigs_def)

lemma missing_component_warns_example:
  "config_step example_host
     \<lparr>ctx_keys = [''./components/utils/utils.js''],
      ctx_require = (\<lambda>r. [(''format'', JFun [(''prototype'', JObj [])])])\<rparr>
     \<lparr>ctx_keys = [], ctx_require = (\<lambda>r. [])\<rparr>
     [(''MyButton'', JObj [])] [] ''./components/utils/utils.js''
   = (Inr [(''MyButton'', JObj [])], [warning ''./components/utils/utils.js''])
   \<and> buildGeneratorConfigs example_host
     \<lparr>ctx_keys = [''./components/utils/utils.js''],
      ctx_require = (\<lambda>r. [(''format'', JFun [(''prototype'', JObj [])])])\<rparr>
     \<lparr>ctx_keys = [], ctx_require = (\<lambda>r. [])\<rparr>
   = (Inr [], [warning ''./components/utils/utils.js''])"
proof -
  let ?cc = "\<lparr>ctx_keys = [''./components/utils/utils.js''],
      ctx_require = (\<lambda>r. [(''format'', JFun [(''prototype'', JObj [])])])\<rparr>"
  have missing: "getComponentFromExports (ctx_require ?cc ''./components/utils/utils.js'')
      = Inr JUndefined"
    by (simp add: getComponentFromExports_def quacks_def obj_get_def inherited_def
          object_prototype_members_def)
  show ?thesis
    using missing_component_warns [OF missing, of example_host
        "\<lparr>ctx_keys = [], ctx_require = (\<lambda>r. [])\<rparr>" "[(''MyButton'', JObj [])]" "[]" "[]"]
      missing_component_warns [OF missing, of example_host
        "\<lparr>ctx_keys = [], ctx_require = (\<lambda>r. [])\<rparr>" "[]" "[]" "[]"]
    by simp
qed

text \<open>
  Claim C1: a route whose module has no export with the shape of a component gives a warning
  and no exception. The code does so only when \<open>getComponentFromExports\<close> returns. On a
  module of helpers in which one export is \<^verbatim>\<open>null\<close> the property read
  \<^verbatim>\<open>_export.prototype\<close> throws: \<open>buildGeneratorConfigs\<close> ends with a TypeError, without
  a warning and without the configurations of the other routes.
\<close>

theorem buildGeneratorConfigs_null_export_throws:
  "buildGeneratorConfigs example_host
     \<lparr>ctx_keys = [''./components/utils/utils.js''],
      ctx_require = (\<lambda>r. [(''cache'', JNull), (''format'', JFun [(''prototype'', JObj [])])])\<rparr>
     \<lparr>ctx_keys = [], ctx_require = (\<lambda>r. [])\<rparr>
   = (Inl TypeError, [])"
  by (simp add: buildGeneratorConfigs_def config_step_def getComponentFromExports_def
        quacks_def obj_get_def)

section \<open>Properties of getControlForProp\<close>

lemma gen_default_eq:
  "gen_default (getControlForProp h p controlOpts) =
     (if truthy (argsOption h p controlOpts) then argsOption h p controlOpts
      else if truthy (defaultValue p) then default_of_prop h (defaultValue p)
      else snd (choose_control h p (argTypesOptions h p controlOpts)))"
  by (simp add: getControlForProp_def Let_def case_prod_beta)

lemma gen_control_eq:
  "gen_control (getControlForProp h p controlOpts) =
     JObj (obj_set (spread (fst (choose_control h p (argTypesOptions h p controlOpts))))
             ''defaultValue'' (gen_default (getControlForProp h p controlOpts)))"
  by (simp add: getControlForProp_def Let_def case_prod_beta)

lemma obj_get_obj_set_same: "obj_get (obj_set ps k v) k = v"
  by (induction ps) (auto simp: obj_get_def)

lemma obj_get_obj_set_other: "k' \<noteq> k \<Longrightarrow> obj_get (obj_set ps k v) k' = obj_get ps k'"
  by (induction ps) (auto simp: obj_get_def)

lemma control_defaultValue:
  "get_member (gen_control (getControlForProp h p controlOpts)) ''defaultValue''
     = Inr (gen_default (getControlForProp h p controlOpts))"
  by (simp add: gen_control_eq obj_get_obj_set_same)

subsection \<open>Quoted words\<close>

lemma quote_not_word: "\<not> word_char (CHR 0x27)"
  by (simp add: word_char_def)

lemma quoted_here_quoted:
  assumes "w \<noteq> []" and "\<forall>c\<in>set w. C c" and "\<not> C (CHR 0x27)"
  shows "quoted_here C (quoted w)"
proof -
  have "takeWhile C (w @ [CHR 0x27]) = w" using assms(2,3) by (simp add: takeWhile_append2)
  moreover have "dropWhile C (w @ [CHR 0x27]) = [CHR 0x27]"
    using assms(2,3) by (simp add: dropWhile_append2)
  ultimately show ?thesis using assms(1) by (simp add: quoted_def)
qed

lemma contains_quoted_quoted:
  "w \<noteq> [] \<Longrightarrow> \<forall>c\<in>set w. C c \<Longrightarrow> \<not> C (CHR 0x27) \<Longrightarrow> contains_quoted C (quoted w)"
  using quoted_here_quoted [of w C] by (simp add: quoted_def)

lemma no_empty_quotes_snoc:
  "CHR 0x27 \<notin> set w \<Longrightarrow> \<not> contains_empty_quotes (w @ [CHR 0x27])"
proof (induction w)
  case Nil
  show ?case by simp
next
  case (Cons a w)
  then show ?case by (cases w) auto
qed

lemma no_empty_quotes_quoted:
  "w \<noteq> [] \<Longrightarrow> CHR 0x27 \<notin> set w \<Longrightarrow> \<not> contains_empty_quotes (quoted w)"
  using no_empty_quotes_snoc [of w] by (cases w) (auto simp: quoted_def)

lemma strip_quotes_quoted: "CHR 0x27 \<notin> set w \<Longrightarrow> strip_quotes (quoted w) = w"
  by (auto simp: strip_quotes_def quoted_def filter_id_conv)

lemma word_has_no_quote: "\<forall>c\<in>set w. word_char c \<Longrightarrow> CHR 0x27 \<notin> set w"
  using quote_not_word by blast

text \<open>
  Claim C9. With no args override, the default value \<^verbatim>\<open>''\<close> (two quotes) gives the
  control default \<^verbatim>\<open>Example Label\<close>, and a quoted word such as \<^verbatim>\<open>'primary'\<close> gives the
  word without its quotes.
\<close>

theorem getControlForProp_quoted_default:
  "\<not> truthy (argsOption h p controlOpts) \<Longrightarrow>
     (defaultValue p = JStr (quoted [])
        \<longrightarrow> gen_default (getControlForProp h p controlOpts) = JStr ''Example Label'')
     \<and> (w \<noteq> [] \<and> (\<forall>c\<in>set w. word_char c) \<and> defaultValue p = JStr (quoted w)
        \<longrightarrow> gen_default (getControlForProp h p controlOpts) = JStr w)"
proof (intro conjI impI)
  assume "\<not> truthy (argsOption h p controlOpts)" and "defaultValue p = JStr (quoted [])"
  then show "gen_default (getControlForProp h p controlOpts) = JStr ''Example Label''"
    by (simp add: gen_default_eq default_of_prop_def try_default_def quoted_def)
next
  assume no_args: "\<not> truthy (argsOption h p controlOpts)"
    and w: "w \<noteq> [] \<and> (\<forall>c\<in>set w. word_char c) \<and> defaultValue p = JStr (quoted w)"
  have "contains_quoted word_char (quoted w)"
    using w quote_not_word by (intro contains_quoted_quoted) auto
  moreover have "\<not> contains_empty_quotes (quoted w)"
    using w word_has_no_quote by (intro no_empty_quotes_quoted) auto
  moreover have "strip_quotes (quoted w) = w"
    using w word_has_no_quote by (intro strip_quotes_quoted) auto
  moreover have "quoted w \<noteq> []" by (simp add: quoted_def)
  ultimately show "gen_default (getControlForProp h p controlOpts) = JStr w"
    using no_args w by (simp add: gen_default_eq default_of_prop_def try_default_def)
qed

theorem getControlForProp_quoted_default_witness:
  "gen_default (getControlForProp example_host
       \<lparr>ptype = ''string'', complexType_original = ''string'',
        defaultValue = JStr (quoted []), attribute = ''label''\<rparr>
       \<lparr>args = [], argTypes = []\<rparr>) = JStr ''Example Label''
   \<and> gen_default (getControlForProp example_host
       \<lparr>ptype = ''string'', complexType_original = ''string'',
        defaultValue = JStr (quoted ''primary''), attribute = ''label''\<rparr>
       \<lparr>args = [], argTypes = []\<rparr>) = JStr ''primary''"
proof -
  have no_args: "\<not> truthy (argsOption example_host
       \<lparr>ptype = ''string'', complexType_original = ''string'',
        defaultValue = d, attribute = ''label''\<rparr> \<lparr>args = [], argTypes = []\<rparr>)" for d
    by (simp add: argsOption_def js_or_def obj_get_def inherited_def
          object_prototype_members_def example_host_def)
  have word: "''primary'' \<noteq> [] \<and> (\<forall>c\<in>set ''primary''. word_char c)"
    by code_simp
  have "gen_default (getControlForProp example_host
       \<lparr>ptype = ''string'', complexType_original = ''string'',
        defaultValue = JStr (quoted []), attribute = ''label''\<rparr>
       \<lparr>args = [], argTypes = []\<rparr>) = JStr ''Example Label''"
    using getControlForProp_quoted_default [OF no_args, THEN conjunct1] by simp
  moreover have "gen_default (getControlForProp example_host
       \<lparr>ptype = ''string'', complexType_original = ''string'',
        defaultValue = JStr (quoted ''primary''), attribute = ''label''\<rparr>
       \<lparr>args = [], argTypes = []\<rparr>) = JStr ''primary''"
    using getControlForProp_quoted_default [OF no_args, THEN conjunct2, of "''primary''"] word
    by simp
  ultimately show ?thesis by (rule conjI)
qed

text \<open>
  Claim C2, as amended. With no args override, a non-empty string default value that
  contains no quoted word (\<^verbatim>\<open>'\w+'\<close>) and no two quotes in a row, and on which
  \<^verbatim>\<open>JSON.parse\<close> throws, comes back unchanged as the default, also in the
  \<^verbatim>\<open>defaultValue\<close> of the control: the exception is caught. A truthy default value that
  is not a string is never parsed and comes back as it is, so the handler never yields
  \<^verbatim>\<open>undefined\<close>.
\<close>

theorem getControlForProp_parse_fallback:
  "\<not> truthy (argsOption h p controlOpts) \<Longrightarrow>
     (defaultValue p = JStr s \<and> s \<noteq> [] \<and> \<not> contains_quoted word_char s
        \<and> \<not> contains_empty_quotes s \<and> json_parse h s = Inl e
       \<longrightarrow> gen_default (getControlForProp h p controlOpts) = JStr s
           \<and> get_member (gen_control (getControlForProp h p controlOpts)) ''defaultValue''
               = Inr (JStr s))
     \<and> (truthy (defaultValue p) \<and> (\<forall>t. defaultValue p \<noteq> JStr t)
       \<longrightarrow> gen_default (getControlForProp h p controlOpts) = defaultValue p)"
proof (intro conjI impI)
  assume no_args: "\<not> truthy (argsOption h p controlOpts)"
    and s: "defaultValue p = JStr s \<and> s \<noteq> [] \<and> \<not> contains_quoted word_char s
        \<and> \<not> contains_empty_quotes s \<and> json_parse h s = Inl e"
  then show d: "gen_default (getControlForProp h p controlOpts) = JStr s"
    by (simp add: gen_default_eq default_of_prop_def try_default_def)
  show "get_member (gen_control (getControlForProp h p controlOpts)) ''defaultValue''
      = Inr (JStr s)"
    using d by (simp add: control_defaultValue)
next
  assume no_args: "\<not> truthy (argsOption h p controlOpts)"
    and d: "truthy (defaultValue p) \<and> (\<forall>t. defaultValue p \<noteq> JStr t)"
  then have "try_default h (defaultValue p) = Inr (defaultValue p)"
    by (cases "defaultValue p") (simp_all add: try_default_def)
  then show "gen_default (getControlForProp h p controlOpts) = defaultValue p"
    using no_args d by (simp add: gen_default_eq default_of_prop_def)
qed

theorem getControlForProp_parse_fallback_witness:
  "gen_default (getControlForProp example_host
       \<lparr>ptype = ''string'', complexType_original = ''string'',
        defaultValue = JStr ''hello world'', attribute = ''label''\<rparr>
       \<lparr>args = [], argTypes = []\<rparr>) = JStr ''hello world''
   \<and> gen_default (getControlForProp example_host
       \<lparr>ptype = ''number'', complexType_original = ''number'',
        defaultValue = JNum 5, attribute = ''label''\<rparr>
       \<lparr>args = [], argTypes = []\<rparr>) = JNum 5"
proof -
  have no_args: "\<not> truthy (argsOption example_host
       \<lparr>ptype = t, complexType_original = t,
        defaultValue = d, attribute = ''label''\<rparr> \<lparr>args = [], argTypes = []\<rparr>)" for d t
    by (simp add: argsOption_def js_or_def obj_get_def inherited_def
          object_prototype_members_def example_host_def)
  have hello: "''hello world'' \<noteq> [] \<and> \<not> contains_quoted word_char ''hello world''
      \<and> \<not> contains_empty_quotes ''hello world''
      \<and> json_parse example_host ''hello world'' = Inl SyntaxError"
    by code_simp
  have "gen_default (getControlForProp example_host
       \<lparr>ptype = ''string'', complexType_original = ''string'',
        defaultValue = JStr ''hello world'', attribute = ''label''\<rparr>
       \<lparr>args = [], argTypes = []\<rparr>) = JStr ''hello world''"
    using getControlForProp_parse_fallback [OF no_args, THEN conjunct1,
        of "''string''" "JStr ''hello world''" "''hello world''" SyntaxError] hello
    by simp
  moreover have "gen_default (getControlForProp example_host
       \<lparr>ptype = ''number'', complexType_original = ''number'',
        defaultValue = JNum 5, attribute = ''label''\<rparr>
       \<lparr>args = [], argTypes = []\<rparr>) = JNum 5"
    using getControlForProp_parse_fallback [OF no_args, THEN conjunct2,
        of "''number''" "JNum 5"]
    by simp
  ultimately show ?thesis by (rule conjI)
qed

text \<open>
  Claim C2 as stated fails on a default value that is not a quoted word but contains one:
  \<^verbatim>\<open>['a', 'b']\<close> is not JSON, and the default is not that text but the text without its
  quotes.
\<close>

theorem getControlForProp_parse_fallback_counterexample:
  "json_parse example_host (''['' @ quoted ''a'' @ '', '' @ quoted ''b'' @ '']'') = Inl SyntaxError
   \<and> gen_default (getControlForProp example_host
       \<lparr>ptype = ''unknown'', complexType_original = ''string[]'',
        defaultValue = JStr (''['' @ quoted ''a'' @ '', '' @ quoted ''b'' @ '']''),
        attribute = ''items''\<rparr>
       \<lparr>args = [], argTypes = []\<rparr>) = JStr ''[a, b]''"
  by code_simp

subsection \<open>The control chosen\<close>

lemma control_type_set_default:
  "control_type (JObj (obj_set ps ''defaultValue'' d)) = control_type (JObj ps)"
  by (simp add: control_type_def obj_get_obj_set_other)

lemma control_options_set_default:
  "control_options (JObj (obj_set ps ''defaultValue'' d)) = control_options (JObj ps)"
  by (simp add: control_options_def obj_get_obj_set_other)

lemma primitive_name_cases:
  "is_primitive_name t \<longleftrightarrow> is_string t \<or> is_number_boolean_object t"
  by (auto simp: is_primitive_name_def is_string_def is_number_boolean_object_def)

lemma string_not_number_boolean_object: "is_string t \<Longrightarrow> \<not> is_number_boolean_object t"
  by (simp add: is_string_def is_number_boolean_object_def)

text \<open>
  Claim C3. With no argTypes override, a prop whose type is number, boolean or object in any
  letter case gets the control \<^verbatim>\<open>{ control: { type: <the type in lower case> } }\<close> (plus
  the default value). An override, looked up under the camel-cased attribute name first and
  under the attribute name itself second, replaces the generated control: the result is a
  copy of the override in which only \<^verbatim>\<open>defaultValue\<close> is set.
\<close>

theorem getControlForProp_type_or_override:
  "(\<not> truthy (argTypesOptions h p controlOpts) \<and> is_number_boolean_object (ptype p)
      \<longrightarrow> gen_control (getControlForProp h p controlOpts)
            = JObj [(''control'', JObj [(''type'', JStr (toLowerCase (ptype p)))]),
                    (''defaultValue'', gen_default (getControlForProp h p controlOpts))]
          \<and> control_type (gen_control (getControlForProp h p controlOpts))
            = JStr (toLowerCase (ptype p)))
   \<and> (truthy (argTypesOptions h p controlOpts)
      \<longrightarrow> gen_control (getControlForProp h p controlOpts)
            = JObj (obj_set (spread (argTypesOptions h p controlOpts)) ''defaultValue''
                      (gen_default (getControlForProp h p controlOpts)))
          \<and> control_type (gen_control (getControlForProp h p controlOpts))
            = control_type (JObj (spread (argTypesOptions h p controlOpts))))
   \<and> argTypesOptions h p controlOpts
       = (if truthy (obj_get (argTypes controlOpts) (camel h (attribute p)))
          then obj_get (argTypes controlOpts) (camel h (attribute p))
          else obj_get (argTypes controlOpts) (attribute p))"
proof (intro conjI impI)
  assume a: "\<not> truthy (argTypesOptions h p controlOpts) \<and> is_number_boolean_object (ptype p)"
  then show g: "gen_control (getControlForProp h p controlOpts)
            = JObj [(''control'', JObj [(''type'', JStr (toLowerCase (ptype p)))]),
                    (''defaultValue'', gen_default (getControlForProp h p controlOpts))]"
    by (simp add: gen_control_eq choose_control_def)
  show "control_type (gen_control (getControlForProp h p controlOpts))
            = JStr (toLowerCase (ptype p))"
    by (simp add: g control_type_def obj_get_def)
next
  assume a: "truthy (argTypesOptions h p controlOpts)"
  then show g: "gen_control (getControlForProp h p controlOpts)
            = JObj (obj_set (spread (argTypesOptions h p controlOpts)) ''defaultValue''
                      (gen_default (getControlForProp h p controlOpts)))"
    by (simp add: gen_control_eq choose_control_def)
  show "control_type (gen_control (getControlForProp h p controlOpts))
            = control_type (JObj (spread (argTypesOptions h p controlOpts)))"
    by (simp add: g control_type_set_default)
next
  show "argTypesOptions h p controlOpts
       = (if truthy (obj_get (argTypes controlOpts) (camel h (attribute p)))
          then obj_get (argTypes controlOpts) (camel h (attribute p))
          else obj_get (argTypes controlOpts) (attribute p))"
    by (simp add: argTypesOptions_def js_or_def)
qed

theorem getControlForProp_type_or_override_witness:
  "control_type (gen_control (getControlForProp example_host
       \<lparr>ptype = ''Boolean'', complexType_original = ''boolean'',
        defaultValue = JStr ''false'', attribute = ''disabled''\<rparr>
       \<lparr>args = [], argTypes = []\<rparr>)) = JStr ''boolean''
   \<and> control_type (gen_control (getControlForProp example_host
       \<lparr>ptype = ''string'', complexType_original = ''string'',
        defaultValue = JUndefined, attribute = ''text-color''\<rparr>
       \<lparr>args = [],
        argTypes = [(''textColor'', JObj [(''control'', JObj [(''type'', JStr ''color'')])])]\<rparr>))
     = JStr ''color''"
proof -
  let ?p = "\<lparr>ptype = ''Boolean'', complexType_original = ''boolean'',
        defaultValue = JStr ''false'', attribute = ''disabled''\<rparr>"
  let ?o = "\<lparr>args = [], argTypes = []\<rparr>"
  let ?q = "\<lparr>ptype = ''string'', complexType_original = ''string'',
        defaultValue = JUndefined, attribute = ''text-color''\<rparr>"
  let ?r = "\<lparr>args = [],
        argTypes = [(''textColor'', JObj [(''control'', JObj [(''type'', JStr ''color'')])])]\<rparr>"
  have none: "\<not> truthy (argTypesOptions example_host ?p ?o)
      \<and> is_number_boolean_object (ptype ?p)"
    by code_simp
  have low: "toLowerCase (ptype ?p) = ''boolean''"
    by code_simp
  have override: "truthy (argTypesOptions example_host ?q ?r)"
    by code_simp
  have col: "control_type (JObj (spread (argTypesOptions example_host ?q ?r))) = JStr ''color''"
    by code_simp
  have "control_type (gen_control (getControlForProp example_host ?p ?o))
      = JStr (toLowerCase (ptype ?p))"
    using getControlForProp_type_or_override [THEN conjunct1, THEN mp, OF none]
    by (rule conjunct2)
  then have first: "control_type (gen_control (getControlForProp example_host ?p ?o))
      = JStr ''boolean''"
    by (simp only: low)
  have "control_type (gen_control (getControlForProp example_host ?q ?r))
      = control_type (JObj (spread (argTypesOptions example_host ?q ?r)))"
    using getControlForProp_type_or_override [THEN conjunct2, THEN conjunct1, THEN mp, OF override]
    by (rule conjunct2)
  then have second: "control_type (gen_control (getControlForProp example_host ?q ?r))
      = JStr ''color''"
    by (simp only: col)
  from first second show ?thesis by (rule conjI)
qed

subsection \<open>Select options\<close>

lemma word_or_dash_plain:
  "word_or_dash c \<Longrightarrow> \<not> white_space c \<and> c \<noteq> CHR 0x27 \<and> c \<noteq> CHR ''|''"
  by (auto simp: word_or_dash_def word_char_def white_space_def Let_def)

lemma trim_plain: "\<forall>c\<in>set w. \<not> white_space c \<Longrightarrow> trim w = w"
proof (cases w)
  case Nil
  then show ?thesis by (simp add: trim_def)
next
  case (Cons a u)
  assume plain: "\<forall>c\<in>set w. \<not> white_space c"
  then have "dropWhile white_space w = w" using Cons by simp
  moreover have "hd (rev w) \<in> set w" using hd_in_set [of "rev w"] Cons by simp
  then have "dropWhile white_space (rev w) = rev w"
    using plain by (simp add: dropWhile_eq_self_iff)
  ultimately show ?thesis by (simp add: trim_def)
qed

lemma select_option_quoted:
  assumes "w \<noteq> []" and "\<forall>c\<in>set w. word_or_dash c"
  shows "select_option (quoted w) = w"
proof -
  have plain: "\<forall>c\<in>set w. \<not> white_space c \<and> c \<noteq> CHR 0x27 \<and> c \<noteq> CHR ''|''"
    using assms(2) word_or_dash_plain by blast
  have "\<not> word_or_dash (CHR 0x27)" by (simp add: word_or_dash_def word_char_def)
  then have "contains_quoted word_or_dash (quoted w)"
    using assms by (intro contains_quoted_quoted) auto
  moreover have "strip_quotes_bars (quoted w) = w"
    using plain by (auto simp: strip_quotes_bars_def quoted_def filter_id_conv)
  moreover have "trim w = w" using plain by (intro trim_plain) auto
  ultimately show ?thesis by (simp add: select_option_def)
qed

text \<open>
  Claim C4, as amended. With no argTypes override, a prop of type string whose
  \<^verbatim>\<open>complexType.original\<close> is not one of the four primitive names gets a select control.
  Its options are the pieces of \<^verbatim>\<open>complexType.original\<close> between the separators
  \<^verbatim>\<open>" | "\<close>, each passed through \<open>select_option\<close>: a piece that is a quoted run of word
  characters and dashes loses its quotes, a piece that contains no such run (a quoted text
  with a space, for one) is kept as it is, quotes included.
\<close>

theorem getControlForProp_select:
  "(is_string (ptype p) \<and> \<not> truthy (argTypesOptions h p controlOpts)
      \<and> \<not> is_primitive_name (complexType_original p)
     \<longrightarrow> control_type (gen_control (getControlForProp h p controlOpts)) = JStr ''select''
         \<and> control_options (gen_control (getControlForProp h p controlOpts))
           = JArr (map (\<lambda>opt. JStr (select_option opt))
                    (js_split (complexType_original p) '' | '')))
   \<and> (w \<noteq> [] \<and> (\<forall>c\<in>set w. word_or_dash c) \<longrightarrow> select_option (quoted w) = w)
   \<and> (\<not> contains_quoted word_or_dash piece \<longrightarrow> select_option piece = piece)"
proof (intro conjI impI)
  assume a: "is_string (ptype p) \<and> \<not> truthy (argTypesOptions h p controlOpts)
      \<and> \<not> is_primitive_name (complexType_original p)"
  then have c: "fst (choose_control h p (argTypesOptions h p controlOpts))
      = JObj [(''control'',
                JObj [(''type'', JStr ''select''),
                      (''options'',
                         JArr (map (\<lambda>opt. JStr (select_option opt))
                                (js_split (complexType_original p) '' | '')))])]"
    using string_not_number_boolean_object [of "ptype p"] by (simp add: choose_control_def)
  show "control_type (gen_control (getControlForProp h p controlOpts)) = JStr ''select''"
    by (simp add: gen_control_eq c control_type_set_default)
       (simp add: control_type_def obj_get_def)
  show "control_options (gen_control (getControlForProp h p controlOpts))
           = JArr (map (\<lambda>opt. JStr (select_option opt))
                    (js_split (complexType_original p) '' | ''))"
    by (simp add: gen_control_eq c control_options_set_default)
       (simp add: control_options_def obj_get_def)
next
  assume "w \<noteq> [] \<and> (\<forall>c\<in>set w. word_or_dash c)"
  then show "select_option (quoted w) = w" by (simp add: select_option_quoted)
next
  assume "\<not> contains_quoted word_or_dash piece"
  then show "select_option piece = piece" by (simp add: select_option_def)
qed

theorem getControlForProp_select_witness:
  "control_options (gen_control (getControlForProp example_host
       \<lparr>ptype = ''string'',
        complexType_original = quoted ''primary'' @ '' | '' @ quoted ''secondary'',
        defaultValue = JStr (quoted ''primary''), attribute = ''color''\<rparr>
       \<lparr>args = [], argTypes = []\<rparr>))
     = JArr [JStr ''primary'', JStr ''secondary'']
   \<and> select_option (quoted ''primary'') = ''primary''
   \<and> select_option ''number'' = ''number''"
proof -
  let ?p = "\<lparr>ptype = ''string'',
        complexType_original = quoted ''primary'' @ '' | '' @ quoted ''secondary'',
        defaultValue = JStr (quoted ''primary''), attribute = ''color''\<rparr>"
  let ?o = "\<lparr>args = [], argTypes = []\<rparr>"
  have hyp: "is_string (ptype ?p) \<and> \<not> truthy (argTypesOptions example_host ?p ?o)
      \<and> \<not> is_primitive_name (complexType_original ?p)"
    by code_simp
  have pieces: "map (\<lambda>opt. JStr (select_option opt)) (js_split (complexType_original ?p) '' | '')
      = [JStr ''primary'', JStr ''secondary'']"
    by code_simp
  have word: "''primary'' \<noteq> [] \<and> (\<forall>c\<in>set ''primary''. word_or_dash c)"
    by code_simp
  have plain: "\<not> contains_quoted word_or_dash ''number''"
    by code_simp
  have "control_options (gen_control (getControlForProp example_host ?p ?o))
       = JArr (map (\<lambda>opt. JStr (select_option opt)) (js_split (complexType_original ?p) '' | ''))"
    using getControlForProp_select [THEN conjunct1, THEN mp, OF hyp] by (rule conjunct2)
  then have first: "control_options (gen_control (getControlForProp example_host ?p ?o))
       = JArr [JStr ''primary'', JStr ''secondary'']"
    by (simp only: pieces)
  have second: "select_option (quoted ''primary'') = ''primary''"
    using getControlForProp_select [THEN conjunct2, THEN conjunct1, THEN mp, OF word] .
  have third: "select_option ''number'' = ''number''"
    using getControlForProp_select [THEN conjunct2, THEN conjunct2, THEN mp, OF plain] .
  from first second third show ?thesis by blast
qed

text \<open>
  Claim C4 as stated fails on quoted alternatives that hold a character other than a word
  character or a dash: the options of \<^verbatim>\<open>'top left' | 'top right'\<close> keep their quotes.
\<close>

theorem getControlForProp_select_counterexample:
  "control_options (gen_control (getControlForProp example_host
       \<lparr>ptype = ''string'',
        complexType_original = quoted ''top left'' @ '' | '' @ quoted ''top right'',
        defaultValue = JUndefined, attribute = ''position''\<rparr>
       \<lparr>args = [], argTypes = []\<rparr>))
     = JArr [JStr (quoted ''top left''), JStr (quoted ''top right'')]"
  by code_simp

subsection \<open>The date branch\<close>

lemma choose_control_primitive:
  "is_primitive_name (ptype p) \<Longrightarrow>
     choose_control h p ov =
       (if truthy ov then (ov, JStr [])
        else if is_number_boolean_object (ptype p)
          then (JObj [(''control'', JObj [(''type'', JStr (toLowerCase (ptype p)))])], JStr [])
        else if \<not> is_primitive_name (complexType_original p)
          then (JObj [(''control'',
                  JObj [(''type'', JStr ''select''),
                        (''options'',
                           JArr (map (\<lambda>opt. JStr (select_option opt))
                                  (js_split (complexType_original p) '' | '')))])],
                JStr [])
        else (text_control, JStr []))"
  by (auto simp: choose_control_def primitive_name_cases)

lemma date_branch_taken:
  "control_type (gen_control (getControlForProp example_host
       \<lparr>ptype = ''any'', complexType_original = ''Date'',
        defaultValue = JUndefined, attribute = ''birth-date''\<rparr>
       \<lparr>args = [], argTypes = []\<rparr>)) = JStr ''date''
   \<and> gen_default (getControlForProp example_host
       \<lparr>ptype = ''any'', complexType_original = ''Date'',
        defaultValue = JUndefined, attribute = ''birth-date''\<rparr>
       \<lparr>args = [], argTypes = []\<rparr>) = now example_host"
  by code_simp

text \<open>
  Claim C10. For a prop whose type is string, number, boolean or object in any letter case,
  the chain never reaches the test of the attribute name: the control chosen does not depend
  on the attribute, the default left by the chain is the empty string and not a date, and
  with no argTypes override the type of the control is the lower-cased prop type, text or
  select (text or select for a string prop), never date.
\<close>

theorem getControlForProp_date_unreachable:
  "is_primitive_name (ptype p) \<Longrightarrow>
     choose_control h (p\<lparr>attribute := a\<rparr>) ov = choose_control h p ov
     \<and> snd (choose_control h p ov) = JStr []
     \<and> (\<not> truthy (argTypesOptions h p controlOpts)
          \<longrightarrow> control_type (gen_control (getControlForProp h p controlOpts))
                \<in> set [JStr ''number'', JStr ''boolean'', JStr ''object'', JStr ''text'',
                       JStr ''select'']
              \<and> control_type (gen_control (getControlForProp h p controlOpts)) \<noteq> JStr ''date'')
     \<and> (\<not> truthy (argTypesOptions h p controlOpts) \<and> is_string (ptype p)
          \<longrightarrow> control_type (gen_control (getControlForProp h p controlOpts))
                \<in> set [JStr ''text'', JStr ''select''])"
proof (intro conjI impI)
  assume prim: "is_primitive_name (ptype p)"
  show "choose_control h (p\<lparr>attribute := a\<rparr>) ov = choose_control h p ov"
    using prim by (simp add: choose_control_primitive)
  show "snd (choose_control h p ov) = JStr []"
    using prim by (simp add: choose_control_primitive)
  {
    assume none: "\<not> truthy (argTypesOptions h p controlOpts)"
    have t: "control_type (gen_control (getControlForProp h p controlOpts))
        = (if is_number_boolean_object (ptype p) then JStr (toLowerCase (ptype p))
           else if \<not> is_primitive_name (complexType_original p) then JStr ''select''
           else JStr ''text'')"
      using prim none
      by (simp add: gen_control_eq choose_control_primitive control_type_set_default)
         (simp add: control_type_def obj_get_def text_control_def)
    show "control_type (gen_control (getControlForProp h p controlOpts))
        \<in> set [JStr ''number'', JStr ''boolean'', JStr ''object'', JStr ''text'', JStr ''select'']"
      by (auto simp: t is_number_boolean_object_def)
    show "control_type (gen_control (getControlForProp h p controlOpts)) \<noteq> JStr ''date''"
      by (auto simp: t is_number_boolean_object_def)
  }
  {
    assume a: "\<not> truthy (argTypesOptions h p controlOpts) \<and> is_string (ptype p)"
    then have "\<not> is_number_boolean_object (ptype p)"
      by (simp add: string_not_number_boolean_object)
    then show "control_type (gen_control (getControlForProp h p controlOpts))
        \<in> set [JStr ''text'', JStr ''select'']"
      using prim a
      by (simp add: gen_control_eq choose_control_primitive control_type_set_default)
         (simp add: control_type_def obj_get_def text_control_def)
  }
qed

theorem getControlForProp_date_unreachable_witness:
  "includes_str ''date'' ''birth-date''
   \<and> control_type (gen_control (getControlForProp example_host
       \<lparr>ptype = ''String'', complexType_original = ''string'',
        defaultValue = JUndefined, attribute = ''birth-date''\<rparr>
       \<lparr>args = [], argTypes = []\<rparr>)) \<in> set [JStr ''text'', JStr ''select'']"
proof -
  let ?p = "\<lparr>ptype = ''String'', complexType_original = ''string'',
        defaultValue = JUndefined, attribute = ''birth-date''\<rparr>"
  let ?o = "\<lparr>args = [], argTypes = []\<rparr>"
  have prim: "is_primitive_name (ptype ?p)"
    by code_simp
  have hyp: "\<not> truthy (argTypesOptions example_host ?p ?o) \<and> is_string (ptype ?p)"
    by code_simp
  have named: "includes_str ''date'' ''birth-date''"
    by code_simp
  have "control_type (gen_control (getControlForProp example_host ?p ?o))
      \<in> set [JStr ''text'', JStr ''select'']"
    using getControlForProp_date_unreachable [OF prim, THEN conjunct2, THEN conjunct2,
        THEN conjunct2, THEN mp, OF hyp] .
  with named show ?thesis by (rule conjI)
qed

section \<open>Properties of getPropsWithControlValues\<close>

lemma obj_set_new: "k \<notin> fst ` set ps \<Longrightarrow> obj_set ps k v = ps @ [(k, v)]"
  by (induction ps) auto

lemma own_attribute_normalize:
  "own_attribute (normalize d) \<noteq> None \<longleftrightarrow> own_attr d \<noteq> None \<or> own_attribute d \<noteq> None"
  by (cases "own_attr d") (simp_all add: normalize_def)

text \<open>The entries one descriptor adds to the arguments and to the argument types.\<close>

lemma props_loop_entries:
  assumes "distinct (map fst ps)"
    and "fst ` set ps \<inter> fst ` set (args c) = {}"
    and "fst ` set ps \<inter> fst ` set (argTypes c) = {}"
  shows "args (props_loop h opts ps c)
           = args c @ concat (map (\<lambda>(key, d).
               case own_attribute (normalize d) of
                 None \<Rightarrow> []
               | Some a \<Rightarrow> [(key, gen_default (getControlForProp h (as_prop (normalize d) a) opts))])
               ps)
       \<and> argTypes (props_loop h opts ps c)
           = argTypes c @ concat (map (\<lambda>(key, d).
               case own_attribute (normalize d) of
                 None \<Rightarrow> []
               | Some a \<Rightarrow> [(key, gen_control (getControlForProp h (as_prop (normalize d) a) opts))])
               ps)"
  using assms
proof (induction ps arbitrary: c)
  case Nil
  show ?case by simp
next
  case (Cons kd ps)
  obtain key d where kd: "kd = (key, d)" by (cases kd)
  show ?case
  proof (cases "own_attribute (normalize d)")
    case None
    have "fst ` set ps \<inter> fst ` set (args c) = {}" "fst ` set ps \<inter> fst ` set (argTypes c) = {}"
      using Cons.prems by auto
    then show ?thesis
      using Cons.IH [of c] Cons.prems(1) None kd by simp
  next
    case (Some a)
    let ?g = "getControlForProp h (as_prop (normalize d) a) opts"
    let ?c = "\<lparr>args = obj_set (args c) key (gen_default ?g),
               argTypes = obj_set (argTypes c) key (gen_control ?g)\<rparr>"
    have fresh: "key \<notin> fst ` set (args c)" "key \<notin> fst ` set (argTypes c)"
      using Cons.prems kd by auto
    then have c: "args ?c = args c @ [(key, gen_default ?g)]"
        "argTypes ?c = argTypes c @ [(key, gen_control ?g)]"
      by (simp_all add: obj_set_new)
    have "key \<notin> fst ` set ps" using Cons.prems(1) kd by (auto simp: image_iff)
    then have "fst ` set ps \<inter> fst ` set (args ?c) = {}"
        "fst ` set ps \<inter> fst ` set (argTypes ?c) = {}"
      using Cons.prems(2,3) unfolding c by auto
    then have "args (props_loop h opts ps ?c)
           = args ?c @ concat (map (\<lambda>(key, d).
               case own_attribute (normalize d) of
                 None \<Rightarrow> []
               | Some a \<Rightarrow> [(key, gen_default (getControlForProp h (as_prop (normalize d) a) opts))])
               ps)
       \<and> argTypes (props_loop h opts ps ?c)
           = argTypes ?c @ concat (map (\<lambda>(key, d).
               case own_attribute (normalize d) of
                 None \<Rightarrow> []
               | Some a \<Rightarrow> [(key, gen_control (getControlForProp h (as_prop (normalize d) a) opts))])
               ps)"
      using Cons.IH [of ?c] Cons.prems(1) by simp
    then show ?thesis
      using Some kd unfolding c by (simp add: Let_def)
  qed
qed

lemma entry_keys:
  "map fst (concat (map (\<lambda>(key, d).
       case own_attribute (normalize d) of None \<Rightarrow> [] | Some a \<Rightarrow> [(key, f d a)]) ps))
     = map fst (filter (\<lambda>(key, d). own_attr d \<noteq> None \<or> own_attribute d \<noteq> None) ps)"
proof (induction ps)
  case Nil
  show ?case by simp
next
  case (Cons kd ps)
  obtain key d where kd: "kd = (key, d)" by (cases kd)
  show ?case
    using Cons own_attribute_normalize [of d] kd
    by (cases "own_attribute (normalize d)") auto
qed

text \<open>
  Claim C5. For a component whose \<^verbatim>\<open>properties\<close> have distinct keys, the keys of the
  \<^verbatim>\<open>args\<close> and of the \<^verbatim>\<open>argTypes\<close> returned are, in order, exactly the keys whose
  descriptor has an \<^verbatim>\<open>attr\<close> or an \<^verbatim>\<open>attribute\<close> own property; the other
  descriptors add nothing. A component without \<^verbatim>\<open>properties\<close> gives empty \<^verbatim>\<open>args\<close>
  and \<^verbatim>\<open>argTypes\<close>.
\<close>

theorem getPropsWithControlValues_keys:
  "(properties Component = Some ps \<and> distinct (map fst ps)
      \<longrightarrow> map fst (args (getPropsWithControlValues h Component controlOpts))
            = map fst (filter (\<lambda>(key, d). own_attr d \<noteq> None \<or> own_attribute d \<noteq> None) ps)
          \<and> map fst (argTypes (getPropsWithControlValues h Component controlOpts))
            = map fst (filter (\<lambda>(key, d). own_attr d \<noteq> None \<or> own_attribute d \<noteq> None) ps))
   \<and> (properties Component = None
      \<longrightarrow> getPropsWithControlValues h Component controlOpts = \<lparr>args = [], argTypes = []\<rparr>)"
proof (intro conjI impI)
  assume a: "properties Component = Some ps \<and> distinct (map fst ps)"
  have e: "args (props_loop h controlOpts ps \<lparr>args = [], argTypes = []\<rparr>)
           = args \<lparr>args = [], argTypes = []\<rparr> @ concat (map (\<lambda>(key, d).
               case own_attribute (normalize d) of
                 None \<Rightarrow> []
               | Some a \<Rightarrow> [(key, gen_default (getControlForProp h (as_prop (normalize d) a) controlOpts))])
               ps)
       \<and> argTypes (props_loop h controlOpts ps \<lparr>args = [], argTypes = []\<rparr>)
           = argTypes \<lparr>args = [], argTypes = []\<rparr> @ concat (map (\<lambda>(key, d).
               case own_attribute (normalize d) of
                 None \<Rightarrow> []
               | Some a \<Rightarrow> [(key, gen_control (getControlForProp h (as_prop (normalize d) a) controlOpts))])
               ps)"
    using a by (intro props_loop_entries) auto
  show "map fst (args (getPropsWithControlValues h Component controlOpts))
            = map fst (filter (\<lambda>(key, d). own_attr d \<noteq> None \<or> own_attribute d \<noteq> None) ps)"
    using a e by (simp add: getPropsWithControlValues_def entry_keys)
  show "map fst (argTypes (getPropsWithControlValues h Component controlOpts))
            = map fst (filter (\<lambda>(key, d). own_attr d \<noteq> None \<or> own_attribute d \<noteq> None) ps)"
    using a e by (simp add: getPropsWithControlValues_def entry_keys)
next
  assume "properties Component = None"
  then show "getPropsWithControlValues h Component controlOpts = \<lparr>args = [], argTypes = []\<rparr>"
    by (simp add: getPropsWithControlValues_def)
qed

theorem getPropsWithControlValues_keys_witness:
  "map fst (args (getPropsWithControlValues example_host
       \<lparr>comp_name = ''MyButton'', comp_is = ''my-button'',
        properties = Some
          [(''color'', \<lparr>ptype = ''string'', complexType_original = quoted ''primary'' @ '' | '' @ quoted ''secondary'',
                        defaultValue = JStr (quoted ''primary''),
                        own_attr = None, own_attribute = Some ''color''\<rparr>),
           (''items'', \<lparr>ptype = ''unknown'', complexType_original = ''string[]'',
                        defaultValue = JUndefined, own_attr = None, own_attribute = None\<rparr>),
           (''disabled'', \<lparr>ptype = ''boolean'', complexType_original = ''boolean'',
                           defaultValue = JStr ''false'',
                           own_attr = Some ''disabled'', own_attribute = None\<rparr>)]\<rparr>
       \<lparr>args = [], argTypes = []\<rparr>)) = [''color'', ''disabled'']
   \<and> getPropsWithControlValues example_host
       \<lparr>comp_name = ''Bare'', comp_is = ''my-bare'', properties = None\<rparr>
       \<lparr>args = [], argTypes = []\<rparr> = \<lparr>args = [], argTypes = []\<rparr>"
proof -
  let ?ps = "[(''color'', \<lparr>ptype = ''string'', complexType_original = quoted ''primary'' @ '' | '' @ quoted ''secondary'',
                        defaultValue = JStr (quoted ''primary''),
                        own_attr = None, own_attribute = Some ''color''\<rparr>),
           (''items'', \<lparr>ptype = ''unknown'', complexType_original = ''string[]'',
                        defaultValue = JUndefined, own_attr = None, own_attribute = None\<rparr>),
           (''disabled'', \<lparr>ptype = ''boolean'', complexType_original = ''boolean'',
                           defaultValue = JStr ''false'',
                           own_attr = Some ''disabled'', own_attribute = None\<rparr>)]"
  let ?C = "\<lparr>comp_name = ''MyButton'', comp_is = ''my-button'', properties = Some ?ps\<rparr>"
  let ?B = "\<lparr>comp_name = ''Bare'', comp_is = ''my-bare'', properties = None\<rparr>"
  have hyp: "properties ?C = Some ?ps \<and> distinct (map fst ?ps)"
    by simp
  have keys: "map fst (filter (\<lambda>(key, d). own_attr d \<noteq> None \<or> own_attribute d \<noteq> None) ?ps)
      = [''color'', ''disabled'']"
    by simp
  have none: "properties ?B = None"
    by simp
  have "map fst (args (getPropsWithControlValues example_host ?C \<lparr>args = [], argTypes = []\<rparr>))
      = map fst (filter (\<lambda>(key, d). own_attr d \<noteq> None \<or> own_attribute d \<noteq> None) ?ps)"
    using getPropsWithControlValues_keys [THEN conjunct1, THEN mp, OF hyp] by (rule conjunct1)
  then have first: "map fst (args (getPropsWithControlValues example_host ?C \<lparr>args = [], argTypes = []\<rparr>))
      = [''color'', ''disabled'']"
    by (simp only: keys)
  have second: "getPropsWithControlValues example_host ?B \<lparr>args = [], argTypes = []\<rparr>
      = \<lparr>args = [], argTypes = []\<rparr>"
    using getPropsWithControlValues_keys [THEN conjunct2, THEN mp, OF none] .
  from first second show ?thesis by (rule conjI)
qed

section \<open>Properties of createStencilStory\<close>

text \<open>
  What \<open>createStencilStory\<close> returns and what it leaves in the store: one new array, which
  holds the new default state followed by the given states, and nothing else changed.
\<close>

lemma createStencilStory_result:
  assumes "createStencilStory h c s0 = (sty, s1)"
  shows "story_states sty = next_array s0"
    and "story_tag sty = comp_is (cfg_Component c)"
    and "story_name sty = comp_name (cfg_Component c)"
    and "arrays s1 = (arrays s0)
           (next_array s0 := next_object s0 # (case cfg_states c of None \<Rightarrow> [] | Some a \<Rightarrow> arrays s0 a))"
    and "objects s1 = (objects s0)(next_object s0 := default_state (comp_is (cfg_Component c)))"
  using assms by (auto simp: createStencilStory_def Let_def)

lemma render_step:
  assumes "arrays s (story_states sty) = d # rest"
  shows "render h sty ctl_args s =
           (render_states h (story_tag sty)
              (map ((objects s)
                     (d := (objects s d)
                        \<lparr>st_props := Some ctl_args,
                         st_argTypes := Some (argTypes (story_controls sty))\<rparr>))
                   (d # rest)),
            s\<lparr>objects := (objects s)
                 (d := (objects s d)
                    \<lparr>st_props := Some ctl_args,
                     st_argTypes := Some (argTypes (story_controls sty))\<rparr>)\<rparr>)"
  using assms by (simp add: render_def Let_def)

text \<open>
  Any number of renders leaves every array as it is and writes one object only, the first
  state of the story's array, of which it changes \<^verbatim>\<open>props\<close> and \<^verbatim>\<open>argTypes\<close> only.
\<close>

lemma renders_frame:
  assumes "arrays s (story_states sty) = d # rest"
  shows "arrays (renders h sty argss s) = arrays s
       \<and> (\<forall>r. r \<noteq> d \<longrightarrow> objects (renders h sty argss s) r = objects s r)
       \<and> (\<forall>ps ts. (objects (renders h sty argss s) d)\<lparr>st_props := ps, st_argTypes := ts\<rparr>
                  = (objects s d)\<lparr>st_props := ps, st_argTypes := ts\<rparr>)"
  using assms
proof (induction argss arbitrary: s)
  case Nil
  show ?case by simp
next
  case (Cons a argss)
  let ?s = "snd (render h sty a s)"
  have step: "?s = s\<lparr>objects := (objects s)
                 (d := (objects s d)
                    \<lparr>st_props := Some a,
                     st_argTypes := Some (argTypes (story_controls sty))\<rparr>)\<rparr>"
    using render_step [OF Cons.prems] by simp
  then have "arrays ?s (story_states sty) = d # rest" using Cons.prems by simp
  from Cons.IH [OF this] show ?case by (simp add: step)
qed

lemma render_states_Inr:
  "render_states h tag sts = Inr cs \<longleftrightarrow> map (render_state h tag) sts = map Inr cs"
proof
  show "render_states h tag sts = Inr cs \<Longrightarrow> map (render_state h tag) sts = map Inr cs"
    by (induction sts arbitrary: cs) (auto split: sum.splits)
  show "map (render_state h tag) sts = map Inr cs \<Longrightarrow> render_states h tag sts = Inr cs"
  proof (induction sts arbitrary: cs)
    case Nil
    then show ?case by simp
  next
    case (Cons st sts)
    then obtain c ds where cs: "cs = c # ds" by (cases cs) auto
    with Cons.prems have "render_state h tag st = Inr c"
      and "map (render_state h tag) sts = map Inr ds" by auto
    with Cons.IH [of ds] cs show ?case by simp
  qed
qed

lemma render_states_total:
  "\<forall>st\<in>set sts. \<exists>c. render_state h tag st = Inr c \<Longrightarrow> \<exists>cs. render_states h tag sts = Inr cs"
  by (induction sts) auto

lemma render_state_title:
  "render_state h tag st = Inr c \<Longrightarrow>
     c_title c = to_string h (st_title st) \<and> el_tag (c_component c) = tag
     \<and> apply_props h (kebab h) (st_props st) = Inr (el_attributes (c_component c))"
  by (auto simp: render_state_def split: if_splits sum.splits)

lemma render_states_titles:
  "render_states h tag sts = Inr cs \<Longrightarrow> map c_title cs = map (\<lambda>st. to_string h (st_title st)) sts"
proof (induction sts arbitrary: cs)
  case Nil
  then show ?case by simp
next
  case (Cons st sts)
  then show ?case
    by (auto split: sum.splits dest: render_state_title)
qed

text \<open>
  Claim C8. The story works on a new array: the caller's array \<open>a\<close> is not the story's
  array, and after \<open>createStencilStory\<close> and after any number of renders it holds the
  references it held before, in the same order. The renders write the new default state
  only, so every state object that existed before the call is unchanged as well.
\<close>

theorem createStencilStory_keeps_states:
  "createStencilStory h c s0 = (sty, s1) \<Longrightarrow> cfg_states c = Some a \<Longrightarrow> a < next_array s0 \<Longrightarrow>
     story_states sty \<noteq> a
     \<and> arrays s1 a = arrays s0 a
     \<and> arrays (renders h sty argss s1) a = arrays s0 a
     \<and> (\<forall>r. r < next_object s0 \<longrightarrow> objects (renders h sty argss s1) r = objects s0 r)"
proof -
  assume made: "createStencilStory h c s0 = (sty, s1)"
    and given: "cfg_states c = Some a" and old: "a < next_array s0"
  note r = createStencilStory_result [OF made]
  have ne: "story_states sty \<noteq> a" using r(1) old by simp
  have kept: "arrays s1 a = arrays s0 a" using r(1,4) old by simp
  have first: "arrays s1 (story_states sty) = next_object s0 # arrays s0 a"
    using r(1,4) given by simp
  note f = renders_frame [OF first, of h argss]
  have "arrays (renders h sty argss s1) a = arrays s0 a" using f kept by simp
  moreover have "\<forall>r. r < next_object s0 \<longrightarrow> objects (renders h sty argss s1) r = objects s0 r"
    using f r(5) by simp
  ultimately show ?thesis using ne kept by simp
qed

theorem createStencilStory_keeps_states_witness:
  "arrays (renders example_host (fst (createStencilStory example_host example_config example_store))
       [[(''color'', JStr ''secondary'')], []]
       (snd (createStencilStory example_host example_config example_store))) 0 = [0]
   \<and> objects (renders example_host (fst (createStencilStory example_host example_config example_store))
       [[(''color'', JStr ''secondary'')], []]
       (snd (createStencilStory example_host example_config example_store))) 0 = example_state"
proof -
  let ?sty = "fst (createStencilStory example_host example_config example_store)"
  let ?s1 = "snd (createStencilStory example_host example_config example_store)"
  have made: "createStencilStory example_host example_config example_store = (?sty, ?s1)"
    by simp
  have given: "cfg_states example_config = Some 0"
    by (simp add: example_config_def)
  have old: "0 < next_array example_store"
    by (simp add: example_store_def)
  have before: "arrays example_store 0 = [0] \<and> 0 < next_object example_store
      \<and> objects example_store 0 = example_state"
    by (simp add: example_store_def)
  note t = createStencilStory_keeps_states [OF made given old,
      of "[[(''color'', JStr ''secondary'')], []]"]
  from t before show ?thesis by simp
qed

text \<open>
  Claim C6. Every render, also after earlier renders, renders the states of the story's array
  in order: first the default state, with its \<^verbatim>\<open>props\<close> set to the control values of
  this render, then the given states as they were when the story was created. When the DOM
  accepts the names used, the result has one container more than there are given states,
  the first container has the title of the default state and the attributes set from the
  control values, and the other containers do not depend on the control values.
\<close>

theorem createStencilStory_render:
  assumes "createStencilStory h c s0 = (sty, s1)"
    and "\<forall>r\<in>set (case cfg_states c of None \<Rightarrow> [] | Some a \<Rightarrow> arrays s0 a). r < next_object s0"
  shows "fst (render h sty ctl_args (renders h sty argss s1))
           = render_states h (comp_is (cfg_Component c))
               ((default_state (comp_is (cfg_Component c)))
                  \<lparr>st_props := Some ctl_args,
                   st_argTypes := Some (argTypes (story_controls sty))\<rparr>
                # map (objects s0) (case cfg_states c of None \<Rightarrow> [] | Some a \<Rightarrow> arrays s0 a))
       \<and> (\<forall>cs. fst (render h sty ctl_args (renders h sty argss s1)) = Inr cs \<longrightarrow>
             (\<exists>first rest. cs = first # rest
                \<and> length rest = length (case cfg_states c of None \<Rightarrow> [] | Some a \<Rightarrow> arrays s0 a)
                \<and> c_title first
                    = to_string h (JStr ''Default state (use Controls below to edit props):'')
                \<and> apply_props h (kebab h) (Some ctl_args)
                    = Inr (el_attributes (c_component first))
                \<and> render_states h (comp_is (cfg_Component c))
                     (map (objects s0) (case cfg_states c of None \<Rightarrow> [] | Some a \<Rightarrow> arrays s0 a))
                    = Inr rest
                \<and> map c_title rest
                    = map (\<lambda>r. to_string h (st_title (objects s0 r)))
                        (case cfg_states c of None \<Rightarrow> [] | Some a \<Rightarrow> arrays s0 a)))
       \<and> ((\<forall>st \<in> set ((default_state (comp_is (cfg_Component c)))
                          \<lparr>st_props := Some ctl_args,
                           st_argTypes := Some (argTypes (story_controls sty))\<rparr>
                        # map (objects s0)
                            (case cfg_states c of None \<Rightarrow> [] | Some a \<Rightarrow> arrays s0 a)).
              \<not> isl (render_state h (comp_is (cfg_Component c)) st))
            \<longrightarrow> \<not> isl (fst (render h sty ctl_args (renders h sty argss s1))))"
proof -
  let ?given = "case cfg_states c of None \<Rightarrow> [] | Some a \<Rightarrow> arrays s0 a"
  let ?tag = "comp_is (cfg_Component c)"
  let ?dflt = "(default_state ?tag)
      \<lparr>st_props := Some ctl_args, st_argTypes := Some (argTypes (story_controls sty))\<rparr>"
  let ?s = "renders h sty argss s1"
  let ?out = "fst (render h sty ctl_args ?s)"
  note r = createStencilStory_result [OF assms(1)]
  have first: "arrays s1 (story_states sty) = next_object s0 # ?given"
    using r(1,4) by simp
  note f = renders_frame [OF first, of h argss]
  have arr: "arrays ?s (story_states sty) = next_object s0 # ?given"
    using f first by simp
  have old: "objects ?s r = objects s0 r" if "r \<in> set ?given" for r
    using that assms(2) f r(5) by auto
  have "(objects ?s (next_object s0))
          \<lparr>st_props := Some ctl_args, st_argTypes := Some (argTypes (story_controls sty))\<rparr>
        = (objects s1 (next_object s0))
          \<lparr>st_props := Some ctl_args, st_argTypes := Some (argTypes (story_controls sty))\<rparr>"
    using f by blast
  then have dflt: "(objects ?s (next_object s0))
          \<lparr>st_props := Some ctl_args, st_argTypes := Some (argTypes (story_controls sty))\<rparr>
        = ?dflt"
    using r(5) by simp
  have fresh: "next_object s0 \<notin> set ?given" using assms(2) by auto
  define f where "f = (objects ?s)
      (next_object s0 := (objects ?s (next_object s0))
         \<lparr>st_props := Some ctl_args, st_argTypes := Some (argTypes (story_controls sty))\<rparr>)"
  have fd: "f (next_object s0) = ?dflt" unfolding f_def using dflt by simp
  have rest: "map f ?given = map (objects s0) ?given"
    unfolding f_def using fresh old by (intro map_cong) auto
  have "render h sty ctl_args ?s
      = (render_states h (story_tag sty) (map f (next_object s0 # ?given)), ?s\<lparr>objects := f\<rparr>)"
    unfolding f_def by (rule render_step [OF arr])
  then have "?out = render_states h (story_tag sty) (map f (next_object s0 # ?given))"
    by (simp only: fst_conv)
  moreover have "map f (next_object s0 # ?given) = ?dflt # map (objects s0) ?given"
    by (simp only: list.map fd rest)
  ultimately have out: "?out = render_states h ?tag (?dflt # map (objects s0) ?given)"
    by (simp only: r(2))
  have parts: "\<exists>first rest. cs = first # rest
                \<and> length rest = length ?given
                \<and> c_title first
                    = to_string h (JStr ''Default state (use Controls below to edit props):'')
                \<and> apply_props h (kebab h) (Some ctl_args)
                    = Inr (el_attributes (c_component first))
                \<and> render_states h ?tag (map (objects s0) ?given) = Inr rest
                \<and> map c_title rest = map (\<lambda>r. to_string h (st_title (objects s0 r))) ?given"
    if ok: "?out = Inr cs" for cs
  proof -
    from ok out have all: "render_states h ?tag (?dflt # map (objects s0) ?given) = Inr cs"
      by simp
    then obtain k ks where cs: "cs = k # ks" and k: "render_state h ?tag ?dflt = Inr k"
      and ks: "render_states h ?tag (map (objects s0) ?given) = Inr ks"
      by (auto split: sum.splits)
    have "length ks = length ?given"
      using ks render_states_Inr [of h ?tag "map (objects s0) ?given" ks]
      by (metis length_map)
    moreover have "c_title k
        = to_string h (JStr ''Default state (use Controls below to edit props):'')"
      using render_state_title [OF k] by (simp add: default_state_def)
    moreover have "apply_props h (kebab h) (Some ctl_args) = Inr (el_attributes (c_component k))"
      using render_state_title [OF k] by simp
    moreover have "map c_title ks = map (\<lambda>r. to_string h (st_title (objects s0 r))) ?given"
      using render_states_titles [OF ks] by (simp add: comp_def)
    ultimately show ?thesis using cs ks by simp
  qed
  have total: "\<not> isl ?out"
    if "\<forall>st \<in> set (?dflt # map (objects s0) ?given). \<not> isl (render_state h ?tag st)"
  proof -
    from that have "\<forall>st \<in> set (?dflt # map (objects s0) ?given). \<exists>k. render_state h ?tag st = Inr k"
      by (metis isl_def sum.exhaust)
    from render_states_total [OF this] out show ?thesis by auto
  qed
  from out parts total show ?thesis by blast
qed

theorem createStencilStory_render_witness:
  "\<exists>first rest.
     fst (render example_host (fst (createStencilStory example_host example_config example_store))
            [(''color'', JStr ''secondary'')]
            (snd (createStencilStory example_host example_config example_store)))
       = Inr (first # rest)
     \<and> length rest = 1
     \<and> c_title first = ''Default state (use Controls below to edit props):''
     \<and> el_attributes (c_component first) = [(''color'', ''secondary'')]
     \<and> map c_title rest = [''Disabled'']"
proof -
  let ?sty = "fst (createStencilStory example_host example_config example_store)"
  let ?s1 = "snd (createStencilStory example_host example_config example_store)"
  let ?args = "[(''color'', JStr ''secondary'')]"
  let ?given = "case cfg_states example_config of None \<Rightarrow> [] | Some a \<Rightarrow> arrays example_store a"
  have made: "createStencilStory example_host example_config example_store = (?sty, ?s1)"
    by simp
  have given: "?given = [0]"
    by (simp add: example_config_def example_store_def)
  have wf: "\<forall>r\<in>set ?given. r < next_object example_store"
    unfolding given by (simp add: example_store_def)
  have ok: "\<forall>st \<in> set ((default_state (comp_is (cfg_Component example_config)))
                          \<lparr>st_props := Some ?args,
                           st_argTypes := Some (argTypes (story_controls ?sty))\<rparr>
                        # map (objects example_store) ?given).
              \<not> isl (render_state example_host (comp_is (cfg_Component example_config)) st)"
    by code_simp
  have title: "to_string example_host (JStr ''Default state (use Controls below to edit props):'')
      = ''Default state (use Controls below to edit props):''"
    by (simp add: example_host_def)
  have attrs: "apply_props example_host (kebab example_host) (Some ?args)
      = Inr [(''color'', ''secondary'')]"
    by code_simp
  have titles: "map (\<lambda>r. to_string example_host (st_title (objects example_store r))) ?given
      = [''Disabled'']"
    by code_simp
  note t = createStencilStory_render [OF made wf, of ?args "[]"]
  have "\<not> isl (fst (render example_host ?sty ?args (renders example_host ?sty [] ?s1)))"
    using t [THEN conjunct2, THEN conjunct2, THEN mp, OF ok] .
  then obtain cs where cs: "fst (render example_host ?sty ?args (renders example_host ?sty [] ?s1))
      = Inr cs"
    by (cases "fst (render example_host ?sty ?args (renders example_host ?sty [] ?s1))") auto
  from t [THEN conjunct2, THEN conjunct1, rule_format, OF cs]
  obtain first rest where parts: "cs = first # rest" "length rest = length ?given"
      "c_title first
         = to_string example_host (JStr ''Default state (use Controls below to edit props):'')"
      "apply_props example_host (kebab example_host) (Some ?args)
         = Inr (el_attributes (c_component first))"
      "map c_title rest
         = map (\<lambda>r. to_string example_host (st_title (objects example_store r))) ?given"
    by blast
  have "fst (render example_host ?sty ?args ?s1) = Inr (first # rest)"
    using cs parts(1) by simp
  moreover have "length rest = 1" using parts(2) given by simp
  moreover have "c_title first = ''Default state (use Controls below to edit props):''"
    using parts(3) title by simp
  moreover have "el_attributes (c_component first) = [(''color'', ''secondary'')]"
    using parts(4) attrs by simp
  moreover have "map c_title rest = [''Disabled'']"
    using parts(5) titles by simp
  ultimately show ?thesis by (intro exI [where x = first] exI [where x = rest] conjI)
qed

end
